theory Spec2Isabelle
  imports Complex_Main "HOL-Library.Multiset" "HOL-Library.Char_ord" "HOL-Library.List_Lexorder"
begin

unbundle bit_operations_syntax

section \<open>Python values used by the health checks\<close>

text \<open>
  Text is a list of characters. A \<^typ>\<open>char\<close> stands for the code point of the same number,
  so the model covers every Python \<open>str\<close> whose code points lie below 256; the character
  classes below are Python's, restricted to that range. Exceptions are values: a function
  that can raise returns \<open>error + 'a\<close>, with \<open>Inl\<close> for the exception.
\<close>

datatype error = ValueError | IndexError

text \<open>\<open>str.isspace\<close>: tab, LF, VT, FF, CR, FS, GS, RS, US, space, NEL, NBSP.\<close>

definition is_space :: "char \<Rightarrow> bool" where
  "is_space c = ((of_char c :: nat) \<in> {9, 10, 11, 12, 13, 28, 29, 30, 31, 32, 133, 160})"

text \<open>The line boundaries of \<open>str.splitlines\<close>: LF, VT, FF, CR, FS, GS, RS, NEL.\<close>

definition is_linebreak :: "char \<Rightarrow> bool" where
  "is_linebreak c = ((of_char c :: nat) \<in> {10, 11, 12, 13, 28, 29, 30, 133})"

definition is_digit :: "char \<Rightarrow> bool" where
  "is_digit c = (48 \<le> (of_char c :: nat) \<and> (of_char c :: nat) \<le> 57)"

definition lstrip :: "string \<Rightarrow> string" where
  "lstrip s = dropWhile is_space s"

definition rstrip :: "string \<Rightarrow> string" where
  "rstrip s = rev (dropWhile is_space (rev s))"

definition strip :: "string \<Rightarrow> string" where
  "strip s = lstrip (rstrip s)"

text \<open>
  \<open>str.splitlines()\<close>: the text is cut at every line boundary, CR LF counting as one;
  the boundaries are dropped and a boundary at the very end opens no further line.
\<close>

fun splitlines_from :: "string \<Rightarrow> string \<Rightarrow> string list" where
  "splitlines_from cur [] = (if cur = [] then [] else [cur])"
| "splitlines_from cur (c # cs) =
     (if c = CHR 0x0D \<and> (case cs of [] \<Rightarrow> False | d # _ \<Rightarrow> d = CHR 0x0A)
      then cur # splitlines_from [] (tl cs)
      else if is_linebreak c then cur # splitlines_from [] cs
      else splitlines_from (cur @ [c]) cs)"

definition splitlines :: "string \<Rightarrow> string list" where
  "splitlines s = splitlines_from [] s"

text \<open>\<open>str.split()\<close> without arguments: the maximal runs of non-whitespace.\<close>

fun split_from :: "string \<Rightarrow> string \<Rightarrow> string list" where
  "split_from cur [] = (if cur = [] then [] else [cur])"
| "split_from cur (c # cs) =
     (if is_space c then (if cur = [] then split_from [] cs else cur # split_from [] cs)
      else split_from (cur @ [c]) cs)"

definition split_ws :: "string \<Rightarrow> string list" where
  "split_ws s = split_from [] s"

text \<open>\<open>str.lower()\<close>: A-Z and the Latin-1 capitals (0xC0-0xDE but the multiplication sign).\<close>

definition lower_char :: "char \<Rightarrow> char" where
  "lower_char c =
     (let n = (of_char c :: nat)
      in if (65 \<le> n \<and> n \<le> 90) \<or> (192 \<le> n \<and> n \<le> 222 \<and> n \<noteq> 215) then char_of (n + 32) else c)"

definition lower :: "string \<Rightarrow> string" where
  "lower s = map lower_char s"

definition startswith :: "string \<Rightarrow> string \<Rightarrow> bool" where
  "startswith s p = (take (length p) s = p)"

text \<open>\<open>sub in s\<close> for two strings.\<close>

fun contains :: "string \<Rightarrow> string \<Rightarrow> bool" where
  "contains [] sub = (sub = [])"
| "contains (c # cs) sub = (startswith (c # cs) sub \<or> contains cs sub)"

text \<open>\<open>str(n)\<close> for an integer, as an f-string renders it.\<close>

definition digit_char :: "nat \<Rightarrow> char" where
  "digit_char d = char_of (48 + d)"

fun show_nat :: "nat \<Rightarrow> string" where
  "show_nat n = (if n < 10 then [digit_char n] else show_nat (n div 10) @ [digit_char (n mod 10)])"

declare show_nat.simps [simp del]

definition show_int :: "int \<Rightarrow> string" where
  "show_int i = (if i < 0 then CHR ''-'' # show_nat (nat (- i)) else show_nat (nat i))"

text \<open>
  Code points above 255 occur only in the program's own literals, in lines it produces and
  never reads back; each is written as its UTF-8 bytes.
\<close>

definition glyph_check :: string where
  "glyph_check = [CHR 0xE2, CHR 0x9C, CHR 0x93]"

definition glyph_cross :: string where
  "glyph_cross = [CHR 0xE2, CHR 0x9C, CHR 0x97]"

definition glyph_bullet :: string where
  "glyph_bullet = [CHR 0xE2, CHR 0x80, CHR 0xA2]"

definition glyph_ellipsis :: string where
  "glyph_ellipsis = [CHR 0xE2, CHR 0x80, CHR 0xA6]"

text \<open>\<open>a or b\<close> on two strings: the first unless it is empty.\<close>

definition py_or :: "string \<Rightarrow> string \<Rightarrow> string" where
  "py_or a b = (if a \<noteq> [] then a else b)"

text \<open>\<open>xs[0]\<close>: IndexError on the empty list.\<close>

definition first_item :: "'a list \<Rightarrow> error + 'a" where
  "first_item xs = (case xs of [] \<Rightarrow> Inl IndexError | x # _ \<Rightarrow> Inr x)"

text \<open>An exception leaves the enclosing function: the rest runs on a returned value only.\<close>

definition and_then :: "error + 'a \<Rightarrow> ('a \<Rightarrow> error + 'b) \<Rightarrow> error + 'b" where
  "and_then r f = (case r of Inl e \<Rightarrow> Inl e | Inr v \<Rightarrow> f v)"

text \<open>
  \<open>int(s)\<close> on a text of decimal digits. CPython refuses a text of more than 4300 digits
  with ValueError (the default of \<open>sys.set_int_max_str_digits\<close>, in 3.11 and in the security
  releases of the earlier versions). Python's \<open>int\<close> reads more than plain digits (a sign,
  blanks around the number, underscores between digits); here every such text is a
  ValueError, which only adds failures to the model: the checks pass it matches of \<open>\d+\<close> only.
\<close>

definition int_max_str_digits :: nat where
  "int_max_str_digits = 4300"

definition py_int :: "string \<Rightarrow> error + int" where
  "py_int s =
     (if s \<noteq> [] \<and> list_all is_digit s
      then (if length s > int_max_str_digits then Inl ValueError
            else Inr (foldl (\<lambda>v c. 10 * v + (int (of_char c) - 48)) 0 s))
      else Inl ValueError)"

text \<open>\<open>\w\<close> of the \<open>re\<close> module: letters, digits, other numerals and the underscore.\<close>

definition is_word :: "char \<Rightarrow> bool" where
  "is_word c =
     (let n = (of_char c :: nat)
      in (48 \<le> n \<and> n \<le> 57) \<or> (65 \<le> n \<and> n \<le> 90) \<or> n = 95 \<or> (97 \<le> n \<and> n \<le> 122)
         \<or> n \<in> {170, 178, 179, 181, 185, 186, 188, 189, 190}
         \<or> (192 \<le> n \<and> n \<le> 214) \<or> (216 \<le> n \<and> n \<le> 246) \<or> 248 \<le> n)"

definition endswith :: "string \<Rightarrow> string \<Rightarrow> bool" where
  "endswith s p = (length p \<le> length s \<and> drop (length s - length p) s = p)"

text \<open>A dict as the list of its items in insertion order; \<open>d[k] = v\<close> keeps the place of a
  key that is already there.\<close>

fun dict_set :: "'k \<Rightarrow> 'v \<Rightarrow> ('k \<times> 'v) list \<Rightarrow> ('k \<times> 'v) list" where
  "dict_set k v [] = [(k, v)]"
| "dict_set k v ((k', v') # kvs) =
     (if k = k' then (k, v) # kvs else (k', v') # dict_set k v kvs)"

text \<open>
  A Python \<open>float\<close>: a real number (comparisons are exact on these), an infinity, or NaN,
  which compares false with everything.
\<close>

datatype pyfloat = Finite real | PosInf | NegInf | NaN

fun float_le :: "pyfloat \<Rightarrow> pyfloat \<Rightarrow> bool" where
  "float_le NaN _ = False"
| "float_le _ NaN = False"
| "float_le NegInf _ = True"
| "float_le _ PosInf = True"
| "float_le (Finite a) (Finite b) = (a \<le> b)"
| "float_le _ _ = False"

fun float_lt :: "pyfloat \<Rightarrow> pyfloat \<Rightarrow> bool" where
  "float_lt NaN _ = False"
| "float_lt _ NaN = False"
| "float_lt (Finite a) (Finite b) = (a < b)"
| "float_lt NegInf NegInf = False"
| "float_lt PosInf _ = False"
| "float_lt NegInf _ = True"
| "float_lt _ PosInf = True"
| "float_lt _ _ = False"

definition float_ge :: "pyfloat \<Rightarrow> pyfloat \<Rightarrow> bool" where
  "float_ge a b = float_le b a"

definition float_gt :: "pyfloat \<Rightarrow> pyfloat \<Rightarrow> bool" where
  "float_gt a b = float_lt b a"

text \<open>
  Floating-point arithmetic and formatting round; the checks take them as given:
  \<open>truediv a b\<close> is \<open>a / b\<close> on two integers, \<open>mul x y\<close> is \<open>x * y\<close> on two floats, and
  \<open>fmt1 x\<close> is \<open>x\<close> formatted with \<open>.1f\<close>. The quotients taken are of byte counts, which stay
  within the range of a float, so \<open>truediv\<close> always gives a value.
\<close>

record float_ops =
  truediv :: "int \<Rightarrow> int \<Rightarrow> pyfloat"
  mul :: "pyfloat \<Rightarrow> pyfloat \<Rightarrow> pyfloat"
  fmt1 :: "pyfloat \<Rightarrow> string"

text \<open>The arithmetic without rounding, with a constant in place of the formatting.\<close>

definition exact_mul :: "pyfloat \<Rightarrow> pyfloat \<Rightarrow> pyfloat" where
  "exact_mul x y = (case (x, y) of (Finite a, Finite b) \<Rightarrow> Finite (a * b) | _ \<Rightarrow> NaN)"

definition exact_ops :: float_ops where
  "exact_ops = \<lparr>truediv = (\<lambda>a b. Finite (real_of_int a / real_of_int b)),
                 mul = exact_mul,
                 fmt1 = (\<lambda>x. ''#.#'')\<rparr>"

section \<open>modules/base.py\<close>

datatype Status = OK | WARN | CRITICAL

text \<open>The table \<open>order\<close> of \<open>Status.worst\<close>, read with \<open>order.get(s, 0)\<close>.\<close>

fun worst_order :: "Status \<Rightarrow> nat" where
  "worst_order OK = 0"
| "worst_order WARN = 1"
| "worst_order CRITICAL = 2"

text \<open>The severities are ordered by that table.\<close>

instantiation Status :: linorder
begin

definition less_eq_Status :: "Status \<Rightarrow> Status \<Rightarrow> bool" where
  "less_eq_Status a b = (worst_order a \<le> worst_order b)"

definition less_Status :: "Status \<Rightarrow> Status \<Rightarrow> bool" where
  "less_Status a b = (worst_order a < worst_order b)"

instance
proof
  fix x y z :: Status
  show "(x < y) = (x \<le> y \<and> \<not> y \<le> x)"
    by (auto simp: less_eq_Status_def less_Status_def)
  show "x \<le> x"
    by (simp add: less_eq_Status_def)
  show "x \<le> y \<Longrightarrow> y \<le> z \<Longrightarrow> x \<le> z"
    by (simp add: less_eq_Status_def)
  show "x \<le> y \<Longrightarrow> y \<le> x \<Longrightarrow> x = y"
    by (cases x; cases y) (simp_all add: less_eq_Status_def)
  show "x \<le> y \<or> y \<le> x"
    by (auto simp: less_eq_Status_def)
qed

end

text \<open>
  Python's \<open>max(iterable, key=f)\<close>: the first element whose key is greatest; ValueError
  on an empty iterable.
\<close>

fun max_from :: "('a \<Rightarrow> nat) \<Rightarrow> 'a \<Rightarrow> 'a list \<Rightarrow> 'a" where
  "max_from key best [] = best"
| "max_from key best (x # xs) =
     (if key best < key x then max_from key x xs else max_from key best xs)"

definition py_max :: "('a \<Rightarrow> nat) \<Rightarrow> 'a list \<Rightarrow> error + 'a" where
  "py_max key xs = (case xs of [] \<Rightarrow> Inl ValueError | x # rest \<Rightarrow> Inr (max_from key x rest))"

definition worst :: "Status list \<Rightarrow> error + Status" where
  "worst statuses = py_max worst_order statuses"

record HealthCheckResult =
  status :: Status
  tooltipLines :: "string list"

text \<open>
  The loop of \<open>HealthCheckResult.merge\<close> over \<open>results.items()\<close>; the dict is the list of
  its items in iteration order.
\<close>

fun merge_loop :: "string list \<Rightarrow> (string \<times> HealthCheckResult) list \<Rightarrow> string list" where
  "merge_loop merged_lines [] = merged_lines"
| "merge_loop merged_lines ((name, result) # rest) =
     (let l1 = (if merged_lines \<noteq> [] then merged_lines @ [''''] else merged_lines);
          l2 = l1 @ [name @ '':''];
          l3 = l2 @ tooltipLines result
      in merge_loop l3 rest)"

definition merge :: "(string \<times> HealthCheckResult) list \<Rightarrow> error + HealthCheckResult" where
  "merge results =
     (let merged_lines = merge_loop [] results
      in case worst (map (\<lambda>(name, r). status r) results) of
           Inl e \<Rightarrow> Inl e
         | Inr s \<Rightarrow> Inr \<lparr>status = s, tooltipLines = merged_lines\<rparr>)"

text \<open>
  A compiled pattern is known by its \<open>search\<close> method: whether it finds a match somewhere
  in the text.
\<close>

type_synonym pattern = "string \<Rightarrow> bool"

type_synonym IgnoreRules = "pattern list"

text \<open>\<open>HealthCheckModule.__init__\<close>: \<open>ignore_rules or IgnoreRules(patterns=[])\<close>.\<close>

definition init_ignore_rules :: "IgnoreRules option \<Rightarrow> IgnoreRules" where
  "init_ignore_rules ignore_rules = (case ignore_rules of None \<Rightarrow> [] | Some r \<Rightarrow> r)"

definition is_ignored :: "IgnoreRules \<Rightarrow> string \<Rightarrow> bool" where
  "is_ignored patterns text = list_ex (\<lambda>r. r text) patterns"

text \<open>The pattern compiled from a text without special characters: it is found where the
  text occurs.\<close>

definition literal_pattern :: "string \<Rightarrow> pattern" where
  "literal_pattern p = (\<lambda>text. contains text p)"

section \<open>modules/utils.py\<close>

text \<open>
  \<open>run(cmd)\<close> returns \<open>(returncode, stdout, stderr)\<close>, and \<open>(127, "", "Command not found: ...")\<close>
  for a missing executable. What the commands answer is the environment of a check: a function
  from the command line to the triple.
\<close>

type_synonym outcome = "int \<times> string \<times> string"

type_synonym executor = "string list \<Rightarrow> outcome"

definition format_command_error :: "string \<Rightarrow> int \<Rightarrow> string \<Rightarrow> string \<Rightarrow> string list" where
  "format_command_error cmd_name code stdout stderr =
     (let lines = [cmd_name @ '' failed with code '' @ show_int code];
          lines = (if strip stderr \<noteq> []
                   then lines @ [''stderr:''] @ map (\<lambda>line. ''  '' @ line) (splitlines (strip stderr))
                   else lines);
          lines = (if strip stdout \<noteq> []
                   then lines @ [''stdout:''] @ map (\<lambda>line. ''  '' @ line) (splitlines (strip stdout))
                   else lines)
      in lines)"

section \<open>modules/systemd.py\<close>

definition max_tooltip_units :: nat where
  "max_tooltip_units = 10"

definition SystemdModule_state_result :: "executor \<Rightarrow> bool \<Rightarrow> error + HealthCheckResult" where
  "SystemdModule_state_result run user =
     (let label = (if user then '' --user'' else '''');
          cmd = [''systemctl''] @ (if user then [''--user''] else []) @ [''is-system-running''];
          (code, out, err) = run cmd
      in if code = 127
         then Inr \<lparr>status = WARN, tooltipLines = [''systemctl missing'']\<rparr>
         else and_then (first_item (splitlines (py_or (py_or (strip out) (strip err)) ''unknown'')))
           (\<lambda>line0.
              let state = strip line0;
                  st = (if state \<in> set [''degraded'', ''maintenance'', ''failed''] then CRITICAL
                        else if state \<in> set [''starting'', ''unknown''] \<or> code > 0 then WARN
                        else OK)
              in Inr \<lparr>status = st, tooltipLines = [''systemd ('' @ label @ ''): '' @ state]\<rparr>))"

text \<open>The loop of \<open>_failed_units_result\<close> over the lines of stdout.\<close>

fun failed_units_loop :: "IgnoreRules \<Rightarrow> string list \<Rightarrow> string list \<Rightarrow> error + string list" where
  "failed_units_loop rules units [] = Inr units"
| "failed_units_loop rules units (raw # rest) =
     (let line = strip raw
      in if line = [] then failed_units_loop rules units rest
         else and_then (first_item (split_ws line))
           (\<lambda>unit. if \<not> is_ignored rules unit
                    then failed_units_loop rules (units @ [unit]) rest
                    else failed_units_loop rules units rest))"

definition SystemdModule_failed_units_result ::
  "executor \<Rightarrow> IgnoreRules \<Rightarrow> bool \<Rightarrow> error + HealthCheckResult" where
  "SystemdModule_failed_units_result run rules user =
     (let label = (if user then '' --user'' else '''');
          cmd = [''systemctl''] @ (if user then [''--user''] else [])
                @ [''--failed'', ''--no-legend'', ''--plain''];
          (code, out, err) = run cmd
      in if code = 127
         then Inr \<lparr>status = WARN, tooltipLines = [''systemctl missing'']\<rparr>
         else if code \<noteq> 0
         then Inr \<lparr>status = WARN,
                   tooltipLines = format_command_error (''systemctl'' @ label @ '' --failed'') code out err\<rparr>
         else and_then (failed_units_loop rules [] (splitlines out))
           (\<lambda>units.
              if units \<noteq> []
              then Inr \<lparr>status = CRITICAL,
                        tooltipLines =
                          [''Failed units:'']
                          @ map (\<lambda>u. ''  '' @ glyph_bullet @ '' '' @ u) (take max_tooltip_units units)
                          @ (if length units > max_tooltip_units
                             then [''  '' @ glyph_ellipsis @ '' (+''
                                   @ show_nat (length units - max_tooltip_units) @ '' more)'']
                             else [])\<rparr>
              else Inr \<lparr>status = OK, tooltipLines = [''Failed units: none'']\<rparr>))"

definition SystemdModule_check :: "executor \<Rightarrow> IgnoreRules \<Rightarrow> error + HealthCheckResult" where
  "SystemdModule_check run rules =
     and_then (SystemdModule_state_result run False) (\<lambda>r1.
     and_then (SystemdModule_state_result run True) (\<lambda>r2.
     and_then (SystemdModule_failed_units_result run rules False) (\<lambda>r3.
     and_then (SystemdModule_failed_units_result run rules True) (\<lambda>r4.
       merge [(''## System state'', r1), (''## User state'', r2),
              (''## Failed (system)'', r3), (''## Failed (user)'', r4)]))))"

section \<open>modules/journal.py\<close>

definition max_tooltip_lines_journal :: nat where
  "max_tooltip_lines_journal = 15"

definition JournalModule_check :: "executor \<Rightarrow> IgnoreRules \<Rightarrow> error + HealthCheckResult" where
  "JournalModule_check run rules =
     (let cmd = [''journalctl'', ''-b'', ''-p'', ''err..emerg'', ''--no-pager'', ''-o'', ''short-iso''];
          (code, out, err) = run cmd
      in if code = 127
         then Inr \<lparr>status = WARN, tooltipLines = [''journalctl missing'']\<rparr>
         else if code \<noteq> 0 \<and> strip out = []
         then and_then (first_item (splitlines (py_or (strip err) ''cannot read journal'')))
           (\<lambda>note. Inr \<lparr>status = WARN,
                         tooltipLines = [''Journal errors (err..emerg): (not readable)'', ''  '' @ note,
                           '''', ''Tip: add user to systemd-journal group, then re-login.'']\<rparr>)
         else
           (let lines_all = filter (\<lambda>line. strip line \<noteq> []) (splitlines out);
                lines_filtered = filter (\<lambda>line. \<not> is_ignored rules line) lines_all;
                count = length lines_filtered;
                recent = drop (count - max_tooltip_lines_journal) lines_filtered
            in if count = 0
               then Inr \<lparr>status = OK, tooltipLines = [''No errors found in journal'']\<rparr>
               else
                 (let details = [''Journal errors (err..emerg): '' @ show_nat count];
                      details =
                        (if recent \<noteq> []
                         then details @ ['''', ''Most recent:''] @ map (\<lambda>line. ''  '' @ line) recent
                              @ (if count > length recent
                                 then [''  '' @ glyph_ellipsis @ '' (+''
                                       @ show_nat (count - length recent) @ '' more)'']
                                 else [])
                         else details)
                  in Inr \<lparr>status = CRITICAL, tooltipLines = details\<rparr>)))"

section \<open>modules/btrfs.py\<close>

definition max_tooltip_lines_btrfs :: nat where
  "max_tooltip_lines_btrfs = 12"

definition BtrfsModule_detect_root_fstype :: "executor \<Rightarrow> string" where
  "BtrfsModule_detect_root_fstype run =
     (let (code, out, _) = run [''findmnt'', ''-n'', ''-o'', ''FSTYPE'', ''/'']
      in if code = 0 \<and> strip out \<noteq> [] then strip out
         else (let (code, out, _) = run [''stat'', ''-f'', ''-c'', ''%T'', ''/'']
               in if code = 0 \<and> strip out \<noteq> [] then strip out else ''unknown''))"

text \<open>
  \<open>re.match(r"^\[.+\]\.(\S+)\s+(\d+)$", line)\<close>, giving the two groups. After the dot the
  three runs are maximal, their classes being disjoint, and \<open>$\<close> stands at the end of the
  text or before a last LF. \<open>.+\<close> takes no LF and is greedy: the longest prefix is tried first.
\<close>

definition match_counter_tail :: "string \<Rightarrow> (string \<times> string) option" where
  "match_counter_tail s =
     (let metric = takeWhile (\<lambda>c. \<not> is_space c) s;
          s1 = dropWhile (\<lambda>c. \<not> is_space c) s;
          gap = takeWhile is_space s1;
          s2 = dropWhile is_space s1;
          val = takeWhile is_digit s2;
          s3 = dropWhile is_digit s2
      in if metric \<noteq> [] \<and> gap \<noteq> [] \<and> val \<noteq> [] \<and> (s3 = [] \<or> s3 = [CHR 0x0A])
         then Some (metric, val) else None)"

fun match_counter_from :: "string \<Rightarrow> string \<Rightarrow> (string \<times> string) option" where
  "match_counter_from seen [] = None"
| "match_counter_from seen (c # cs) =
     (case (if c = CHR 0x0A then None else match_counter_from (seen @ [c]) cs) of
        Some groups \<Rightarrow> Some groups
      | None \<Rightarrow>
          if seen \<noteq> [] \<and> c = CHR '']'' \<and> startswith cs ''.''
          then match_counter_tail (tl cs) else None)"

definition match_counter :: "string \<Rightarrow> (string \<times> string) option" where
  "match_counter line =
     (case line of [] \<Rightarrow> None
      | c # cs \<Rightarrow> if c = CHR ''['' then match_counter_from [] cs else None)"

text \<open>
  The loop of \<open>device_stats\<close> over the lines of stdout, on the three variables
  \<open>nonzero\<close>, \<open>interesting\<close> and \<open>parse_err\<close>.
\<close>

fun device_stats_loop ::
  "IgnoreRules \<Rightarrow> nat \<times> string list \<times> bool \<Rightarrow> string list \<Rightarrow> error + nat \<times> string list \<times> bool" where
  "device_stats_loop rules acc [] = Inr acc"
| "device_stats_loop rules (nonzero, interesting, parse_err) (raw # rest) =
     (let line = strip raw
      in if line = [] then device_stats_loop rules (nonzero, interesting, parse_err) rest
         else if is_ignored rules line
         then device_stats_loop rules (nonzero, interesting, parse_err) rest
         else (case match_counter line of
                 Some (metric, digits) \<Rightarrow>
                   and_then (py_int digits)
                     (\<lambda>val. if val \<noteq> 0
                             then device_stats_loop rules (nonzero + 1, interesting @ [line], parse_err) rest
                             else device_stats_loop rules (nonzero, interesting, parse_err) rest)
               | None \<Rightarrow>
                   device_stats_loop rules
                     (nonzero, interesting @ [''couldn'' @ [CHR 0x27] @ ''t parse this line: '' @ line], True)
                     rest))"

text \<open>\<open>device_stats\<close> from the lines of stdout on, once the command has succeeded.\<close>

definition device_stats_of_lines :: "IgnoreRules \<Rightarrow> string list \<Rightarrow> error + HealthCheckResult" where
  "device_stats_of_lines rules lines =
     and_then (device_stats_loop rules (0, [], False) lines)
       (\<lambda>(nonzero, interesting, parse_err).
          let st = (if nonzero > 0 then CRITICAL else if parse_err then WARN else OK);
              details = [''non-zero counters: '' @ show_nat nonzero]
                        @ map (\<lambda>line. ''  '' @ line) (take max_tooltip_lines_btrfs interesting);
              details = (if nonzero = 0 then details @ [''  (none)''] else details)
          in Inr \<lparr>status = st, tooltipLines = details\<rparr>)"

definition BtrfsModule_device_stats :: "executor \<Rightarrow> IgnoreRules \<Rightarrow> error + HealthCheckResult" where
  "BtrfsModule_device_stats run rules =
     (let (code, out, err) = run [''btrfs'', ''device'', ''stats'', ''/'']
      in if code = 127
         then Inr \<lparr>status = WARN, tooltipLines = [''btrfs-progs missing'']\<rparr>
         else if code \<noteq> 0
         then Inr \<lparr>status = WARN,
                   tooltipLines = format_command_error ''btrfs device stats'' code out err\<rparr>
         else device_stats_of_lines rules (splitlines out))"

text \<open>
  \<open>re.search(r"(\w+_errors?):\s*(\d+)", line)\<close>, giving the two groups. At a position the
  match takes the whole run of word characters there, which must end in \<open>_error\<close> or
  \<open>_errors\<close> after at least one more character and be followed by the colon, blanks and
  digits; \<open>search\<close> answers with the leftmost position that matches.
\<close>

definition match_scrub_at :: "string \<Rightarrow> (string \<times> string) option" where
  "match_scrub_at s =
     (let w = takeWhile is_word s;
          r = dropWhile is_word s
      in if ((endswith w ''_error'' \<and> length w > 6) \<or> (endswith w ''_errors'' \<and> length w > 7))
            \<and> startswith r '':''
         then (let d = takeWhile is_digit (dropWhile is_space (tl r))
               in if d \<noteq> [] then Some (w, d) else None)
         else None)"

fun search_scrub :: "string \<Rightarrow> (string \<times> string) option" where
  "search_scrub [] = match_scrub_at []"
| "search_scrub (c # cs) =
     (case match_scrub_at (c # cs) of Some groups \<Rightarrow> Some groups | None \<Rightarrow> search_scrub cs)"

text \<open>The loop of \<open>scrub_status\<close> filling \<open>error_counts\<close>.\<close>

fun scrub_loop :: "(string \<times> int) list \<Rightarrow> string list \<Rightarrow> error + (string \<times> int) list" where
  "scrub_loop error_counts [] = Inr error_counts"
| "scrub_loop error_counts (line # rest) =
     (case search_scrub line of
        Some (error_type, digits) \<Rightarrow>
          and_then (py_int digits) (\<lambda>count. scrub_loop (dict_set error_type count error_counts) rest)
      | None \<Rightarrow> scrub_loop error_counts rest)"

definition BtrfsModule_scrub_status :: "executor \<Rightarrow> IgnoreRules \<Rightarrow> error + HealthCheckResult" where
  "BtrfsModule_scrub_status run rules =
     (let (code, out, err) = run [''btrfs'', ''scrub'', ''status'', ''-R'', ''/'']
      in if code = 127
         then Inr \<lparr>status = WARN, tooltipLines = [''btrfs-progs missing'']\<rparr>
         else if code \<noteq> 0
         then Inr \<lparr>status = WARN,
                   tooltipLines = format_command_error ''btrfs scrub status'' code out err\<rparr>
         else
           (let lines = map rstrip (filter (\<lambda>line. strip line \<noteq> []) (splitlines out));
                lines = filter (\<lambda>line. \<not> is_ignored rules line) lines
            in and_then (scrub_loop [] lines)
                 (\<lambda>error_counts.
                    let total_errors = sum_list (map snd error_counts);
                        st = (if total_errors > 0 then CRITICAL
                              else if error_counts = [] then WARN
                              else OK);
                        details =
                          (if error_counts \<noteq> []
                           then [''scrub errors: '' @ show_int total_errors]
                                @ map (\<lambda>(error_type, count). '' - '' @ error_type @ '': '' @ show_int count)
                                    (filter (\<lambda>(error_type, count). count > 0) (sort_key fst error_counts))
                           else [''unable to parse scrub output''])
                    in Inr \<lparr>status = st, tooltipLines = details\<rparr>)))"

definition BtrfsModule_check :: "executor \<Rightarrow> IgnoreRules \<Rightarrow> error + HealthCheckResult" where
  "BtrfsModule_check run rules =
     (let fstype = BtrfsModule_detect_root_fstype run
      in if fstype \<noteq> ''btrfs''
         then Inr \<lparr>status = WARN,
                   tooltipLines = [''(root is '' @ [CHR 0x27] @ fstype @ [CHR 0x27]
                                   @ '', not btrfs. check your config)'']\<rparr>
         else and_then (BtrfsModule_device_stats run rules) (\<lambda>r1.
              and_then (BtrfsModule_scrub_status run rules) (\<lambda>r2.
                merge [(''## Device stats'', r1), (''## Scrub'', r2)])))"

section \<open>modules/smart.py\<close>

record SmartDevice =
  path :: string
  device_type :: "string option"

definition SMARTCTL_EXIT_BITS :: "(int \<times> Status \<times> string) list" where
  "SMARTCTL_EXIT_BITS =
     [(1, WARN, ''smartctl: command line did not parse''),
      (2, WARN, ''smartctl: failed to open device''),
      (4, WARN, ''smartctl: SMART command failed''),
      (8, CRITICAL, ''SMART overall-health self-assessment reported failure''),
      (16, CRITICAL, ''At least one prefailure attribute is below threshold''),
      (32, CRITICAL, ''At least one usage attribute is below threshold''),
      (64, CRITICAL, ''SMART self-test log contains errors''),
      (128, WARN, ''A previous selective self-test is pending completion'')]"

text \<open>The loop of \<open>parse_scan_output\<close> over the lines of the scan.\<close>

fun parse_scan_loop :: "SmartDevice list \<Rightarrow> string list \<Rightarrow> SmartDevice list" where
  "parse_scan_loop devices [] = devices"
| "parse_scan_loop devices (raw # rest) =
     (let line = strip raw
      in if line = [] \<or> startswith line ''#'' then parse_scan_loop devices rest
         else
           (let line = (if CHR ''#'' \<in> set line
                        then strip (takeWhile (\<lambda>c. c \<noteq> CHR ''#'') line) else line)
            in if line = [] then parse_scan_loop devices rest
               else (case split_ws line of
                       [] \<Rightarrow> parse_scan_loop devices rest
                     | p # _ \<Rightarrow>
                         (let tokens = split_ws line;
                              dt = (if length tokens \<ge> 3 \<and> tokens ! 1 = ''-d''
                                    then Some (tokens ! 2) else None)
                          in parse_scan_loop (devices @ [\<lparr>path = p, device_type = dt\<rparr>]) rest))))"

definition parse_scan_output :: "string \<Rightarrow> SmartDevice list" where
  "parse_scan_output output = parse_scan_loop [] (splitlines output)"

text \<open>The loop of \<open>_decode_exit_bits\<close> over the table.\<close>

fun decode_loop :: "int \<Rightarrow> (Status \<times> string) list \<Rightarrow> (int \<times> Status \<times> string) list
    \<Rightarrow> (Status \<times> string) list" where
  "decode_loop code lines [] = lines"
| "decode_loop code lines ((bitmask, st, message) # rest) =
     (if code AND bitmask \<noteq> 0 then decode_loop code (lines @ [(st, message)]) rest
      else decode_loop code lines rest)"

definition decode_exit_bits :: "int \<Rightarrow> (Status \<times> string) list" where
  "decode_exit_bits code = decode_loop code [] SMARTCTL_EXIT_BITS"

definition status_from_exit_and_health ::
  "(Status \<times> string) list \<Rightarrow> string option \<Rightarrow> error + Status" where
  "status_from_exit_and_health exit_messages health_line =
     (let statuses = (if map fst exit_messages \<noteq> [] then map fst exit_messages else [OK]);
          statuses =
            (case health_line of
               None \<Rightarrow> statuses
             | Some h \<Rightarrow>
                 if h = [] then statuses
                 else (let summary = lower h
                       in if list_ex (contains summary) [''fail'', ''fault'', ''corrupt'']
                          then statuses @ [CRITICAL]
                          else if list_ex (contains summary) [''unknown'', ''n/a'', ''not supported'']
                          then statuses @ [WARN]
                          else if list_ex (contains summary) [''pass'', ''ok'', ''good'']
                          then statuses @ [OK]
                          else statuses @ [WARN]))
      in worst statuses)"

text \<open>The loop of \<open>_extract_health_line\<close> over the lines of a text.\<close>

fun extract_health_loop :: "string list \<Rightarrow> string option" where
  "extract_health_loop [] = None"
| "extract_health_loop (line # rest) =
     (let stripped = strip line
      in if stripped = [] then extract_health_loop rest
         else (let line_lower = lower stripped
               in if contains line_lower ''smart''
                     \<and> (contains line_lower ''health'' \<or> contains line_lower ''overall''
                          \<or> contains line_lower ''self-assessment'')
                  then Some stripped
                  else extract_health_loop rest))"

definition extract_health_line :: "string \<Rightarrow> string option" where
  "extract_health_line text = extract_health_loop (splitlines text)"

definition summarize_health :: "string option \<Rightarrow> Status \<Rightarrow> string" where
  "summarize_health health_line st =
     (case (if health_line = Some [] then None else health_line) of
        Some h \<Rightarrow> h
      | None \<Rightarrow> (case st of OK \<Rightarrow> ''SMART status OK''
                  | WARN \<Rightarrow> ''SMART status uncertain''
                  | CRITICAL \<Rightarrow> ''SMART reports failure''))"

text \<open>\<open>a or b\<close> on two optional strings: the first unless it is None or empty.\<close>

definition opt_or :: "string option \<Rightarrow> string option \<Rightarrow> string option" where
  "opt_or a b = (case a of None \<Rightarrow> b | Some s \<Rightarrow> if s = [] then b else Some s)"

definition SmartModule_check_device :: "executor \<Rightarrow> SmartDevice \<Rightarrow> error + Status \<times> string list" where
  "SmartModule_check_device run device =
     (let cmd = [''sudo'', ''smartctl'', ''-a'', path device];
          (code, out, err) = run cmd
      in if code = 127
         then Inr (WARN, [path device @ '': smartctl command not found (unexpected during check)''])
         else
           (let exit_messages = decode_exit_bits code;
                health_line = opt_or (extract_health_line out) (extract_health_line err)
            in and_then (status_from_exit_and_health exit_messages health_line)
                 (\<lambda>st.
                    let summary = summarize_health health_line st;
                        marker = (case st of OK \<Rightarrow> glyph_check | WARN \<Rightarrow> ''!'' | CRITICAL \<Rightarrow> glyph_cross);
                        lines = [''['' @ marker @ ''] '' @ path device @ '': '' @ summary];
                        lines =
                          (if exit_messages \<noteq> []
                           then lines @ map (\<lambda>(msg_status, msg).
                                  ''  - ('' @ (case msg_status of OK \<Rightarrow> ''info'' | WARN \<Rightarrow> ''warn''
                                               | CRITICAL \<Rightarrow> ''crit'') @ '') '' @ msg) exit_messages
                           else lines);
                        lines =
                          (if code \<noteq> 0 \<and> exit_messages = [] \<and> (strip err \<noteq> [] \<or> strip out = [])
                           then lines @ format_command_error ''sudo smartctl -a'' code out err
                           else if strip err \<noteq> [] \<and> code = 0
                           then lines @ [''  stderr:'']
                                @ map (\<lambda>line. ''    '' @ line) (splitlines (strip err))
                           else lines)
                    in Inr (st, lines))))"

text \<open>A list comprehension whose element can raise: the first exception ends it.\<close>

fun map_results :: "('a \<Rightarrow> error + 'b) \<Rightarrow> 'a list \<Rightarrow> error + 'b list" where
  "map_results f [] = Inr []"
| "map_results f (x # xs) =
     and_then (f x) (\<lambda>y. and_then (map_results f xs) (\<lambda>ys. Inr (y # ys)))"

definition SmartModule_check :: "executor \<Rightarrow> IgnoreRules \<Rightarrow> error + HealthCheckResult" where
  "SmartModule_check run rules =
     (let (scan_code, scan_out, scan_err) = run [''sudo'', ''smartctl'', ''--scan-open'']
      in if scan_code = 127
         then Inr \<lparr>status = WARN,
                   tooltipLines = [''SMART: smartctl command not found'',
                                   ''Install smartmontools to enable SMART health checks.'']\<rparr>
         else
           (let devices = filter (\<lambda>dev. \<not> is_ignored rules (path dev)) (parse_scan_output scan_out)
            in if devices = []
               then
                 (let lines = [''SMART: no devices detected via '' @ [CHR 0x27]
                               @ ''smartctl --scan-open'' @ [CHR 0x27]];
                      err_lines = splitlines (strip scan_err)
                  in and_then (first_item (if err_lines \<noteq> [] then err_lines else ['''']))
                       (\<lambda>err_line.
                          let lines = (if err_line \<noteq> [] then lines @ [''  '' @ err_line] else lines);
                              lines = lines @ [''Make sure your sudo permissions are set per the README.md'']
                          in Inr \<lparr>status = WARN, tooltipLines = lines\<rparr>))
               else and_then (map_results (SmartModule_check_device run) devices)
                      (\<lambda>results.
                         and_then (worst (map fst results))
                           (\<lambda>st. Inr \<lparr>status = st, tooltipLines = concat (map snd results)\<rparr>))))"

section \<open>modules/disk.py\<close>

record MountThreshold =
  path :: string
  warn_percent :: pyfloat
  critical_percent :: pyfloat

text \<open>Constructing a \<open>MountThreshold\<close>: the dataclass's fields, then \<open>__post_init__\<close>.\<close>

definition MountThreshold_init :: "string \<Rightarrow> pyfloat \<Rightarrow> pyfloat \<Rightarrow> error + MountThreshold" where
  "MountThreshold_init p w c =
     (if p = [] then Inl ValueError
      else if \<not> (float_le (Finite 0) w \<and> float_le w (Finite 100)) then Inl ValueError
      else if \<not> (float_le (Finite 0) c \<and> float_le c (Finite 100)) then Inl ValueError
      else if float_gt w c then Inl ValueError
      else Inr \<lparr>path = p, warn_percent = w, critical_percent = c\<rparr>)"

text \<open>
  What \<open>shutil.disk_usage(path)\<close> gives: the named tuple \<open>(total, used, free)\<close>, one of the
  exceptions the check catches, or the ValueError it raises for a path with an embedded
  null byte.
\<close>

datatype usage_result =
    Usage (total: int) (used: int) (free: int)
  | FileNotFoundError
  | PermissionError
  | OSError string
  | RaisesValueError

type_synonym disk_usage = "string \<Rightarrow> usage_result"

record DiskModule =
  ignore_rules :: IgnoreRules
  mount_thresholds :: "MountThreshold list"
  config_error :: "string option"

definition DiskModule_init ::
  "MountThreshold list option \<Rightarrow> IgnoreRules option \<Rightarrow> string option \<Rightarrow> DiskModule" where
  "DiskModule_init mts rules cfg_err =
     \<lparr>ignore_rules = init_ignore_rules rules,
      mount_thresholds = (case mts of None \<Rightarrow> [] | Some l \<Rightarrow> l),
      config_error = cfg_err\<rparr>"

text \<open>The verdict of one mountpoint from its used percentage.\<close>

definition mount_status :: "pyfloat \<Rightarrow> MountThreshold \<Rightarrow> Status" where
  "mount_status used_percent cfg =
     (if float_ge used_percent (critical_percent cfg) then CRITICAL
      else if float_ge used_percent (warn_percent cfg) then WARN
      else OK)"

definition used_percent_of :: "float_ops \<Rightarrow> int \<Rightarrow> int \<Rightarrow> pyfloat" where
  "used_percent_of ops total_bytes free_bytes =
     mul ops (truediv ops (total_bytes - free_bytes) total_bytes) (Finite 100)"

text \<open>
  One turn of the loop of \<open>DiskModule.check\<close>: the verdict and the line of a mountpoint.
  The three \<open>except\<close> clauses catch the OSError family only, so the ValueError leaves the
  check.
\<close>

definition check_mount :: "float_ops \<Rightarrow> disk_usage \<Rightarrow> MountThreshold \<Rightarrow> error + Status \<times> string" where
  "check_mount ops du cfg =
     (case du (MountThreshold.path cfg) of
        FileNotFoundError \<Rightarrow> Inr (WARN, MountThreshold.path cfg @ '': not found (warn)'')
      | PermissionError \<Rightarrow> Inr (WARN, MountThreshold.path cfg @ '': permission denied'')
      | OSError exc \<Rightarrow>
          Inr (WARN, MountThreshold.path cfg @ '': error reading usage ('' @ exc @ '')'')
      | RaisesValueError \<Rightarrow> Inl ValueError
      | Usage t u f \<Rightarrow>
          if t \<le> 0 then Inr (WARN, MountThreshold.path cfg @ '': unable to determine size'')
          else
            (let used_percent = used_percent_of ops t f;
                 st = mount_status used_percent cfg;
                 free_gib = truediv ops f (1024 ^ 3);
                 total_gib = truediv ops t (1024 ^ 3);
                 marker = (case st of OK \<Rightarrow> glyph_check | WARN \<Rightarrow> ''!'' | CRITICAL \<Rightarrow> glyph_cross)
             in Inr (st, ''['' @ marker @ ''] '' @ MountThreshold.path cfg @ '': ''
                     @ fmt1 ops used_percent
                     @ ''% used ('' @ fmt1 ops free_gib @ ''/'' @ fmt1 ops total_gib @ '' GiB free) ''
                     @ ''(warn '' @ fmt1 ops (warn_percent cfg) @ ''%, crit ''
                     @ fmt1 ops (critical_percent cfg) @ ''%)'')))"

fun disk_loop :: "float_ops \<Rightarrow> disk_usage \<Rightarrow> string list \<times> Status list \<Rightarrow> MountThreshold list
    \<Rightarrow> error + string list \<times> Status list" where
  "disk_loop ops du acc [] = Inr acc"
| "disk_loop ops du (lines, mount_statuses) (cfg # rest) =
     and_then (check_mount ops du cfg)
       (\<lambda>(st, line). disk_loop ops du (lines @ [line], mount_statuses @ [st]) rest)"

definition DiskModule_check :: "float_ops \<Rightarrow> disk_usage \<Rightarrow> DiskModule \<Rightarrow> error + HealthCheckResult" where
  "DiskModule_check ops du self =
     (case (if config_error self = Some [] then None else config_error self) of
        Some e \<Rightarrow> Inr \<lparr>status = WARN,
                        tooltipLines = [''Disk usage: invalid configuration'', ''  '' @ e]\<rparr>
      | None \<Rightarrow>
          if mount_thresholds self = []
          then Inr \<lparr>status = WARN,
                    tooltipLines = [''Disk usage: no mountpoints configured'',
                                    ''Configure mounts in disk.json (see README)'']\<rparr>
          else and_then (disk_loop ops du ([], []) (mount_thresholds self))
                 (\<lambda>(lines, mount_statuses).
                    and_then (worst mount_statuses)
                      (\<lambda>overall_status. Inr \<lparr>status = overall_status, tooltipLines = lines\<rparr>)))"

text \<open>The verdict of one mountpoint alone.\<close>

definition mount_verdict :: "float_ops \<Rightarrow> disk_usage \<Rightarrow> MountThreshold \<Rightarrow> error + Status" where
  "mount_verdict ops du cfg = and_then (check_mount ops du cfg) (\<lambda>(st, line). Inr st)"

section \<open>The merge as the specification words it\<close>

text \<open>
  The block of one named entry: the header line \<open>"<name>:"\<close>, then the entry's lines.
  The merged lines are the blocks in order, a blank line before each block but the first.
\<close>

definition entry_block :: "string \<times> HealthCheckResult \<Rightarrow> string list" where
  "entry_block e = (fst e @ '':'') # tooltipLines (snd e)"

fun merged_lines_spec :: "(string \<times> HealthCheckResult) list \<Rightarrow> string list" where
  "merged_lines_spec [] = []"
| "merged_lines_spec (e # rest) = entry_block e @ concat (map (\<lambda>e'. [] # entry_block e') rest)"

section \<open>Commands and missing tools\<close>

text \<open>
  The commands the checks run. A tool is missing when each of its commands answers with
  exit code 127.
\<close>

definition systemd_cmds :: "string list list" where
  "systemd_cmds =
     [[''systemctl'', ''is-system-running''],
      [''systemctl'', ''--user'', ''is-system-running''],
      [''systemctl'', ''--failed'', ''--no-legend'', ''--plain''],
      [''systemctl'', ''--user'', ''--failed'', ''--no-legend'', ''--plain'']]"

definition journal_cmd :: "string list" where
  "journal_cmd = [''journalctl'', ''-b'', ''-p'', ''err..emerg'', ''--no-pager'', ''-o'', ''short-iso'']"

definition device_stats_cmd :: "string list" where
  "device_stats_cmd = [''btrfs'', ''device'', ''stats'', ''/'']"

definition scrub_cmd :: "string list" where
  "scrub_cmd = [''btrfs'', ''scrub'', ''status'', ''-R'', ''/'']"

definition scan_cmd :: "string list" where
  "scan_cmd = [''sudo'', ''smartctl'', ''--scan-open'']"

definition tool_missing :: "executor \<Rightarrow> string list list \<Rightarrow> bool" where
  "tool_missing run cmds = list_all (\<lambda>cmd. fst (run cmd) = 127) cmds"

section \<open>The detail of one SMART device\<close>

text \<open>
  The command of the per-device query; the lines of a device's detail after its summary line
  and its bit lines; the echo of stderr; an executor that gives every command the same
  answer; a sample device.
\<close>

definition smartctl_a :: "SmartDevice \<Rightarrow> string list" where
  "smartctl_a device = [''sudo'', ''smartctl'', ''-a'', SmartDevice.path device]"



definition run_always :: "outcome \<Rightarrow> executor" where
  "run_always answer = (\<lambda>cmd. answer)"

definition dev_sda :: SmartDevice where
  "dev_sda = \<lparr>SmartDevice.path = ''/dev/sda'', device_type = None\<rparr>"

section \<open>Thresholds, sample mounts and sample device statistics\<close>

text \<open>
  A threshold lies in range when it is between 0 and 100. A line of the device statistics
  is quiet when it is blank, ignored, or a counter of value zero. The samples: a disk of a
  given size and free space, the thresholds 80 and 90, a rule that finds \<open>read_io\<close>, and two
  counter lines.
\<close>

definition in_percent_range :: "pyfloat \<Rightarrow> bool" where
  "in_percent_range x = (float_le (Finite 0) x \<and> float_le x (Finite 100))"

definition du_sample :: "int \<Rightarrow> int \<Rightarrow> disk_usage" where
  "du_sample t f = (\<lambda>p. Usage t (t - f) f)"

definition cfg_80_90 :: MountThreshold where
  "cfg_80_90 = \<lparr>MountThreshold.path = ''/'', warn_percent = Finite 80, critical_percent = Finite 90\<rparr>"

definition quiet_line :: "IgnoreRules \<Rightarrow> string \<Rightarrow> bool" where
  "quiet_line rules raw =
     (strip raw = [] \<or> is_ignored rules (strip raw)
      \<or> (case match_counter (strip raw) of
            Some (metric, digits) \<Rightarrow> py_int digits = Inr 0
          | None \<Rightarrow> False))"

definition rules_read_io :: IgnoreRules where
  "rules_read_io = [literal_pattern ''read_io'']"

definition line_read_3 :: string where
  "line_read_3 = ''[/dev/sda].read_io_errs 3''"

definition line_write_0 :: string where
  "line_write_0 = ''[/dev/sda].write_io_errs 0''"

section \<open>Inputs on which a check raises\<close>

text \<open>
  Device statistics whose counter has 4301 digits, with a root file system reported as
  btrfs; and a mountpoint whose path holds a null byte, for which \<open>disk_usage\<close> raises
  ValueError.
\<close>

definition long_counter :: string where
  "long_counter = replicate 4301 CHR ''0''"

definition long_counter_line :: string where
  "long_counter_line = ''[/dev/sda].write_io_errs '' @ long_counter"

definition run_long_counter :: executor where
  "run_long_counter =
     (\<lambda>cmd. if cmd = device_stats_cmd then (0, long_counter_line, []) else (0, ''btrfs'', []))"

definition mount_null_path :: MountThreshold where
  "mount_null_path =
     \<lparr>MountThreshold.path = ''/mnt'' @ [CHR 0x00], warn_percent = Finite 80,
      critical_percent = Finite 90\<rparr>"

definition du_null :: disk_usage where
  "du_null = (\<lambda>p. if CHR 0x00 \<in> set p then RaisesValueError else Usage 1000 500 500)"

definition disk_null_path :: DiskModule where
  "disk_null_path = DiskModule_init (Some [mount_null_path]) None None"

section \<open>Severity and merge\<close>

lemma max_from_mem: "max_from key best xs \<in> set (best # xs)"
  by (induction xs arbitrary: best) auto

lemma max_from_ge_best: "key best \<le> key (max_from key best xs)"
proof (induction xs arbitrary: best)
  case Nil
  show ?case by simp
next
  case (Cons x xs)
  show ?case
  proof (cases "key best < key x")
    case True
    have "key x \<le> key (max_from key x xs)" by (rule Cons.IH)
    with True show ?thesis by simp
  next
    case False
    then show ?thesis by (simp add: Cons.IH)
  qed
qed

lemma max_from_ge: "t \<in> set (best # xs) \<Longrightarrow> key t \<le> key (max_from key best xs)"
proof (induction xs arbitrary: best)
  case Nil
  then show ?case by simp
next
  case (Cons x xs)
  show ?case
  proof (cases "key best < key x")
    case True
    have "key t \<le> key (max_from key x xs)"
    proof (cases "t = best")
      case eq: True
      have "key x \<le> key (max_from key x xs)" by (rule max_from_ge_best)
      with True eq show ?thesis by simp
    next
      case False
      with Cons.prems have "t \<in> set (x # xs)" by auto
      then show ?thesis by (rule Cons.IH)
    qed
    with True show ?thesis by simp
  next
    case False
    have "key t \<le> key (max_from key best xs)"
    proof (cases "t = x")
      case eq: True
      have "key best \<le> key (max_from key best xs)" by (rule max_from_ge_best)
      with False eq show ?thesis by simp
    next
      case neq: False
      with Cons.prems have "t \<in> set (best # xs)" by auto
      then show ?thesis by (rule Cons.IH)
    qed
    with False show ?thesis by simp
  qed
qed

lemma worst_Max:
  assumes "statuses \<noteq> []"
  shows "worst statuses = Inr (Max (set statuses))"
proof -
  from assms obtain x rest where xs: "statuses = x # rest"
    by (cases statuses) auto
  let ?m = "max_from worst_order x rest"
  have mem: "?m \<in> set statuses"
    unfolding xs by (rule max_from_mem)
  have "\<And>t. t \<in> set statuses \<Longrightarrow> t \<le> ?m"
    unfolding xs less_eq_Status_def by (rule max_from_ge)
  with mem have "Max (set statuses) = ?m"
    by (intro Max_eqI) auto
  then show ?thesis
    by (simp add: worst_def py_max_def xs)
qed

text \<open>
  C1. On a non-empty list \<open>Status.worst\<close> returns the greatest severity of the list in the
  order OK < WARN < CRITICAL, and every list with the same elements in the same numbers
  (any permutation) gets the same answer.
\<close>

theorem worst_maximum_order_independent:
  assumes "statuses \<noteq> []"
  shows "OK < WARN \<and> WARN < CRITICAL
    \<and> worst statuses = Inr (Max (set statuses))
    \<and> (\<forall>other. mset other = mset statuses \<longrightarrow> worst other = worst statuses)"
proof -
  have "worst other = worst statuses" if "mset other = mset statuses" for other
  proof -
    from that have s: "set other = set statuses"
      by (rule mset_eq_setD)
    from that assms have "other \<noteq> []"
      by auto
    then show ?thesis
      using assms s by (simp add: worst_Max)
  qed
  then show ?thesis
    using assms by (simp add: worst_Max less_Status_def)
qed

theorem worst_maximum_order_independent_witness:
  "[WARN, CRITICAL, OK] \<noteq> []
   \<and> worst [WARN, CRITICAL, OK] = Inr CRITICAL
   \<and> worst [OK, WARN, CRITICAL] = worst [WARN, CRITICAL, OK]"
proof -
  have ne: "[WARN, CRITICAL, OK] \<noteq> []" by simp
  have m: "mset [OK, WARN, CRITICAL] = mset [WARN, CRITICAL, OK]" by simp
  from worst_maximum_order_independent [OF ne] m
  have "worst [OK, WARN, CRITICAL] = worst [WARN, CRITICAL, OK]" by blast
  moreover have "worst [WARN, CRITICAL, OK] = Inr CRITICAL"
    by (simp add: worst_def py_max_def)
  ultimately show ?thesis by simp
qed

lemma merge_loop_nonempty:
  "acc \<noteq> [] \<Longrightarrow> merge_loop acc results = acc @ concat (map (\<lambda>e. [] # entry_block e) results)"
proof (induction results arbitrary: acc)
  case Nil
  show ?case by simp
next
  case (Cons e rest)
  obtain name r where e: "e = (name, r)" by (cases e)
  have "merge_loop acc (e # rest) = merge_loop (acc @ [] # (name @ '':'') # tooltipLines r) rest"
    using Cons.prems by (simp add: e)
  also have "\<dots> = (acc @ [] # (name @ '':'') # tooltipLines r) @ concat (map (\<lambda>e. [] # entry_block e) rest)"
    by (rule Cons.IH) simp
  finally show ?case by (simp add: e entry_block_def)
qed

lemma merge_loop_spec: "merge_loop [] results = merged_lines_spec results"
proof (cases results)
  case Nil
  then show ?thesis by simp
next
  case (Cons e rest)
  obtain name r where e: "e = (name, r)" by (cases e)
  have "merge_loop [] (e # rest) = merge_loop ((name @ '':'') # tooltipLines r) rest"
    by (simp add: e)
  also have "\<dots> = ((name @ '':'') # tooltipLines r) @ concat (map (\<lambda>e. [] # entry_block e) rest)"
    by (rule merge_loop_nonempty) simp
  finally show ?thesis by (simp add: Cons e entry_block_def)
qed

text \<open>
  C2. For a non-empty ordered mapping, \<open>merge\<close> returns the result whose severity is
  \<open>worst\<close> of the input severities and whose lines are, entry by entry in iteration
  order, a blank line (not before the first entry), the header \<open>"<name>:"\<close> and the entry's
  lines; a single entry gives its header and its lines, with no blank line in front.
\<close>

theorem merge_worst_and_blocks:
  assumes "results \<noteq> []"
  shows "merge results =
           Inr \<lparr>status = Max (set (map (\<lambda>e. status (snd e)) results)),
                tooltipLines = merged_lines_spec results\<rparr>
    \<and> worst (map (\<lambda>e. status (snd e)) results) = Inr (Max (set (map (\<lambda>e. status (snd e)) results)))
    \<and> merge [(name, r)] = Inr \<lparr>status = status r, tooltipLines = (name @ '':'') # tooltipLines r\<rparr>"
proof -
  have m: "map (\<lambda>(name, r). status r) results = map (\<lambda>e. status (snd e)) results"
    by (simp add: case_prod_unfold)
  have ne: "map (\<lambda>e. status (snd e)) results \<noteq> []"
    using assms by simp
  have w: "worst (map (\<lambda>e. status (snd e)) results) = Inr (Max (set (map (\<lambda>e. status (snd e)) results)))"
    using ne by (rule worst_Max)
  have one: "merge [(name, r)] = Inr \<lparr>status = status r, tooltipLines = (name @ '':'') # tooltipLines r\<rparr>"
    by (simp add: merge_def worst_def py_max_def)
  have "merge results = Inr \<lparr>status = Max (set (map (\<lambda>e. status (snd e)) results)),
                tooltipLines = merged_lines_spec results\<rparr>"
    unfolding merge_def Let_def m w merge_loop_spec by simp
  with w one show ?thesis by simp
qed

theorem merge_worst_and_blocks_witness:
  "merge [(''a'', \<lparr>status = WARN, tooltipLines = [''x'', ''y'']\<rparr>), (''b'', \<lparr>status = OK, tooltipLines = [''z'']\<rparr>)]
     = Inr \<lparr>status = WARN, tooltipLines = [''a:'', ''x'', ''y'', '''', ''b:'', ''z'']\<rparr>"
  using merge_worst_and_blocks [of "[(''a'', \<lparr>status = WARN, tooltipLines = [''x'', ''y'']\<rparr>), (''b'', \<lparr>status = OK, tooltipLines = [''z'']\<rparr>)]"]
  by (simp add: entry_block_def less_eq_Status_def)

text \<open>
  C10. On the empty list \<open>Status.worst\<close> raises (the ValueError of \<open>max\<close>), and so does
  \<open>merge\<close> on the empty mapping; each returns a value exactly on non-empty input.
\<close>

theorem worst_and_merge_raise_on_empty:
  "worst [] = Inl ValueError \<and> merge [] = Inl ValueError
   \<and> (\<forall>statuses. (\<exists>s. worst statuses = Inr s) = (statuses \<noteq> []))
   \<and> (\<forall>results. (\<exists>r. merge results = Inr r) = (results \<noteq> []))"
proof -
  have a: "(\<exists>s. worst statuses = Inr s) = (statuses \<noteq> [])" for statuses
    by (cases statuses) (simp_all add: worst_def py_max_def)
  have b: "(\<exists>r. merge results = Inr r) = (results \<noteq> [])" for results :: "(string \<times> HealthCheckResult) list"
    by (cases results) (simp_all add: merge_def worst_def py_max_def)
  show ?thesis using a b by (simp add: worst_def py_max_def merge_def)
qed

section \<open>Text operations that cannot come back empty\<close>

lemma splitlines_from_nonempty: "cur \<noteq> [] \<or> s \<noteq> [] \<Longrightarrow> splitlines_from cur s \<noteq> []"
proof (induction s arbitrary: cur)
  case Nil
  then show ?case by simp
next
  case (Cons c cs)
  have "splitlines_from (cur @ [c]) cs \<noteq> []"
    by (rule Cons.IH) simp
  then show ?case by simp
qed

lemma splitlines_nonempty: "s \<noteq> [] \<Longrightarrow> splitlines s \<noteq> []"
  unfolding splitlines_def by (rule splitlines_from_nonempty) simp

lemma first_item_nonempty: "xs \<noteq> [] \<Longrightarrow> first_item xs = Inr (hd xs)"
  by (cases xs) (simp_all add: first_item_def)

lemma first_line_exists: "s \<noteq> [] \<Longrightarrow> first_item (splitlines s) = Inr (hd (splitlines s))"
  by (rule first_item_nonempty) (rule splitlines_nonempty)

lemma split_from_nonempty:
  "cur \<noteq> [] \<or> (\<exists>c \<in> set s. \<not> is_space c) \<Longrightarrow> split_from cur s \<noteq> []"
proof (induction s arbitrary: cur)
  case Nil
  then show ?case by simp
next
  case (Cons c cs)
  show ?case
  proof (cases "is_space c")
    case True
    show ?thesis
    proof (cases "cur = []")
      case True
      with Cons.prems \<open>is_space c\<close> have "\<exists>d \<in> set cs. \<not> is_space d" by auto
      then have "split_from [] cs \<noteq> []" by (intro Cons.IH) simp
      with True \<open>is_space c\<close> show ?thesis by simp
    next
      case False
      with \<open>is_space c\<close> show ?thesis by simp
    qed
  next
    case False
    have "split_from (cur @ [c]) cs \<noteq> []" by (rule Cons.IH) simp
    with False show ?thesis by simp
  qed
qed

lemma strip_starts_unblank: "strip s \<noteq> [] \<Longrightarrow> \<not> is_space (hd (strip s))"
  unfolding strip_def lstrip_def by (rule hd_dropWhile)

lemma split_ws_strip_nonempty: "strip s \<noteq> [] \<Longrightarrow> split_ws (strip s) \<noteq> []"
proof -
  assume ne: "strip s \<noteq> []"
  then have "\<not> is_space (hd (strip s))" by (rule strip_starts_unblank)
  moreover from ne have "hd (strip s) \<in> set (strip s)" by simp
  ultimately have "\<exists>c \<in> set (strip s). \<not> is_space c" by blast
  then show ?thesis unfolding split_ws_def by (intro split_from_nonempty) simp
qed

lemma takeWhile_all: "list_all P (takeWhile P xs)"
  by (induction xs) simp_all

lemma match_counter_tail_digits:
  "match_counter_tail s = Some (m, d) \<Longrightarrow> d \<noteq> [] \<and> list_all is_digit d"
  unfolding match_counter_tail_def Let_def
  by (auto split: if_splits simp: takeWhile_all)

lemma match_counter_from_digits:
  "match_counter_from seen s = Some (m, d) \<Longrightarrow> d \<noteq> [] \<and> list_all is_digit d"
proof (induction s arbitrary: seen)
  case Nil
  then show ?case by simp
next
  case (Cons c cs)
  show ?case
  proof (cases "if c = CHR 0x0A then None else match_counter_from (seen @ [c]) cs")
    case None
    with Cons.prems have "match_counter_tail (tl cs) = Some (m, d)"
      by (simp split: if_splits)
    then show ?thesis by (rule match_counter_tail_digits)
  next
    case (Some g)
    with Cons.prems have g: "g = (m, d)" by simp
    from Some g have "match_counter_from (seen @ [c]) cs = Some (m, d)"
      by (simp split: if_splits)
    then show ?thesis by (rule Cons.IH)
  qed
qed

section \<open>The loops return\<close>

lemma worst_total: "statuses \<noteq> [] \<Longrightarrow> \<exists>s. worst statuses = Inr s"
  by (simp add: worst_Max)

lemma merge_total: "results \<noteq> [] \<Longrightarrow> \<exists>r. merge results = Inr r"
  by (cases results) (simp_all add: merge_def worst_def py_max_def)

lemma failed_units_loop_total: "\<exists>u. failed_units_loop rules units lines = Inr u"
proof (induction lines arbitrary: units)
  case Nil
  show ?case by simp
next
  case (Cons raw rest)
  show ?case
  proof (cases "strip raw = []")
    case True
    then show ?thesis using Cons.IH [of units] by simp
  next
    case False
    then have "split_ws (strip raw) \<noteq> []" by (rule split_ws_strip_nonempty)
    then have f: "first_item (split_ws (strip raw)) = Inr (hd (split_ws (strip raw)))"
      by (rule first_item_nonempty)
    show ?thesis
      using False Cons.IH [of units] Cons.IH [of "units @ [hd (split_ws (strip raw))]"]
      by (simp add: f and_then_def Let_def)
  qed
qed

lemma map_results_total:
  assumes "\<And>x. \<exists>y. f x = Inr y"
  shows "\<exists>ys. map_results f xs = Inr ys \<and> length ys = length xs"
proof (induction xs)
  case Nil
  show ?case by simp
next
  case (Cons x xs)
  from assms obtain y where y: "f x = Inr y" by blast
  from Cons.IH obtain ys where ys: "map_results f xs = Inr ys" "length ys = length xs" by blast
  show ?case by (simp add: y ys and_then_def)
qed

section \<open>SMART exit bits\<close>

lemma and_bit_numerals:
  fixes code :: int
  shows "(code AND 1 \<noteq> 0) = bit code 0" "(code AND 2 \<noteq> 0) = bit code 1"
    "(code AND 4 \<noteq> 0) = bit code 2" "(code AND 8 \<noteq> 0) = bit code 3"
    "(code AND 16 \<noteq> 0) = bit code 4" "(code AND 32 \<noteq> 0) = bit code 5"
    "(code AND 64 \<noteq> 0) = bit code 6" "(code AND 128 \<noteq> 0) = bit code 7"
  using and_exp_eq_0_iff_not_bit [of code 0] and_exp_eq_0_iff_not_bit [of code 1]
    and_exp_eq_0_iff_not_bit [of code 2] and_exp_eq_0_iff_not_bit [of code 3]
    and_exp_eq_0_iff_not_bit [of code 4] and_exp_eq_0_iff_not_bit [of code 5]
    and_exp_eq_0_iff_not_bit [of code 6] and_exp_eq_0_iff_not_bit [of code 7]
  by simp_all

lemma decode_loop_acc: "decode_loop code acc tbl = acc @ decode_loop code [] tbl"
proof (induction tbl arbitrary: acc)
  case Nil
  show ?case by simp
next
  case (Cons e tbl)
  obtain b s m where e: "e = (b, s, m)" by (cases e)
  show ?case
    using Cons.IH [of "acc @ [(s, m)]"] Cons.IH [of "[(s, m)]"] Cons.IH [of acc]
    by (simp add: e)
qed

lemma decode_loop_step:
  "decode_loop code [] ((b, s, m) # tbl) = (if code AND b \<noteq> 0 then [(s, m)] else []) @ decode_loop code [] tbl"
  using decode_loop_acc [of code "[(s, m)]" tbl] by simp

lemma decode_exit_bits_by_bit:
  "decode_exit_bits code =
     (if bit code 0 then [(WARN, ''smartctl: command line did not parse'')] else [])
   @ (if bit code 1 then [(WARN, ''smartctl: failed to open device'')] else [])
   @ (if bit code 2 then [(WARN, ''smartctl: SMART command failed'')] else [])
   @ (if bit code 3 then [(CRITICAL, ''SMART overall-health self-assessment reported failure'')] else [])
   @ (if bit code 4 then [(CRITICAL, ''At least one prefailure attribute is below threshold'')] else [])
   @ (if bit code 5 then [(CRITICAL, ''At least one usage attribute is below threshold'')] else [])
   @ (if bit code 6 then [(CRITICAL, ''SMART self-test log contains errors'')] else [])
   @ (if bit code 7 then [(WARN, ''A previous selective self-test is pending completion'')] else [])"
  unfolding decode_exit_bits_def SMARTCTL_EXIT_BITS_def
  by (simp only: decode_loop_step decode_loop.simps(1) and_bit_numerals append_Nil2)

lemma decode_9: "decode_exit_bits 9 = [(WARN, ''smartctl: command line did not parse''),
    (CRITICAL, ''SMART overall-health self-assessment reported failure'')]"
  by (simp add: decode_exit_bits_def SMARTCTL_EXIT_BITS_def)

section \<open>Checks that return on every answer\<close>

lemma py_or_default: "b \<noteq> [] \<Longrightarrow> py_or a b \<noteq> []"
  by (simp add: py_or_def)

lemma state_result_total: "\<exists>r. SystemdModule_state_result run user = Inr r"
proof -
  let ?cmd = "[''systemctl''] @ (if user then [''--user''] else []) @ [''is-system-running'']"
  obtain code out err where r: "run ?cmd = (code, out, err)"
    by (cases "run ?cmd") auto
  have "py_or (py_or (strip out) (strip err)) ''unknown'' \<noteq> []"
    by (rule py_or_default) simp
  then have f: "first_item (splitlines (py_or (py_or (strip out) (strip err)) ''unknown''))
      = Inr (hd (splitlines (py_or (py_or (strip out) (strip err)) ''unknown'')))"
    by (rule first_line_exists)
  show ?thesis
    unfolding SystemdModule_state_result_def Let_def r
    by (simp add: f and_then_def)
qed

lemma failed_units_result_total: "\<exists>r. SystemdModule_failed_units_result run rules user = Inr r"
proof -
  let ?cmd = "[''systemctl''] @ (if user then [''--user''] else []) @ [''--failed'', ''--no-legend'', ''--plain'']"
  obtain code out err where r: "run ?cmd = (code, out, err)"
    by (cases "run ?cmd") auto
  obtain units where u: "failed_units_loop rules [] (splitlines out) = Inr units"
    using failed_units_loop_total by blast
  show ?thesis
    unfolding SystemdModule_failed_units_result_def Let_def r
    by (simp add: u and_then_def)
qed

lemma systemd_check_total: "\<exists>r. SystemdModule_check run rules = Inr r"
proof -
  obtain r1 where r1: "SystemdModule_state_result run False = Inr r1"
    using state_result_total by blast
  obtain r2 where r2: "SystemdModule_state_result run True = Inr r2"
    using state_result_total by blast
  obtain r3 where r3: "SystemdModule_failed_units_result run rules False = Inr r3"
    using failed_units_result_total by blast
  obtain r4 where r4: "SystemdModule_failed_units_result run rules True = Inr r4"
    using failed_units_result_total by blast
  have "\<exists>r. merge [(''## System state'', r1), (''## User state'', r2),
              (''## Failed (system)'', r3), (''## Failed (user)'', r4)] = Inr r"
    by (rule merge_total) simp
  then show ?thesis
    unfolding SystemdModule_check_def by (simp add: r1 r2 r3 r4 and_then_def)
qed

lemma journal_check_total: "\<exists>r. JournalModule_check run rules = Inr r"
proof -
  let ?cmd = "[''journalctl'', ''-b'', ''-p'', ''err..emerg'', ''--no-pager'', ''-o'', ''short-iso'']"
  obtain code out err where r: "run ?cmd = (code, out, err)"
    by (cases "run ?cmd") auto
  have "py_or (strip err) ''cannot read journal'' \<noteq> []"
    by (rule py_or_default) simp
  then have f: "first_item (splitlines (py_or (strip err) ''cannot read journal''))
      = Inr (hd (splitlines (py_or (strip err) ''cannot read journal'')))"
    by (rule first_line_exists)
  show ?thesis
    unfolding JournalModule_check_def Let_def r
    by (simp add: f and_then_def)
qed

lemma status_from_exit_and_health_total: "\<exists>s. status_from_exit_and_health msgs h = Inr s"
  unfolding status_from_exit_and_health_def Let_def
  by (auto split: option.splits intro!: worst_total)

lemma check_device_total: "\<exists>r. SmartModule_check_device run device = Inr r"
proof -
  let ?cmd = "[''sudo'', ''smartctl'', ''-a'', SmartDevice.path device]"
  obtain code out err where r: "run ?cmd = (code, out, err)"
    by (cases "run ?cmd") auto
  obtain s where s: "status_from_exit_and_health (decode_exit_bits code)
      (opt_or (extract_health_line out) (extract_health_line err)) = Inr s"
    using status_from_exit_and_health_total by blast
  show ?thesis
    unfolding SmartModule_check_device_def Let_def r
    by (simp add: s and_then_def)
qed

lemma smart_check_total: "\<exists>r. SmartModule_check run rules = Inr r"
proof -
  obtain code out err where r: "run [''sudo'', ''smartctl'', ''--scan-open''] = (code, out, err)"
    by (cases "run [''sudo'', ''smartctl'', ''--scan-open'']") auto
  let ?devices = "filter (\<lambda>dev. \<not> is_ignored rules (SmartDevice.path dev)) (parse_scan_output out)"
  obtain results where res: "map_results (SmartModule_check_device run) ?devices = Inr results"
      "length results = length ?devices"
    using map_results_total [of "SmartModule_check_device run" ?devices] check_device_total by blast
  have f: "\<exists>l. first_item (if splitlines (strip err) \<noteq> [] then splitlines (strip err) else [[]]) = Inr l"
    by (simp add: first_item_nonempty)
  show ?thesis
  proof (cases "?devices = []")
    case True
    from f obtain l where "first_item (if splitlines (strip err) \<noteq> [] then splitlines (strip err) else [[]]) = Inr l"
      by blast
    with True show ?thesis
      unfolding SmartModule_check_def Let_def r by (simp add: and_then_def)
  next
    case False
    with res have "map fst results \<noteq> []" by auto
    then obtain s where "worst (map fst results) = Inr s"
      using worst_total by blast
    with False res show ?thesis
      unfolding SmartModule_check_def Let_def r by (simp add: and_then_def)
  qed
qed

section \<open>Missing tools and an unreadable journal\<close>

lemma missing_outcome: "fst (answer :: outcome) = 127 \<Longrightarrow> \<exists>out err. answer = (127, out, err)"
  by (cases answer) auto

lemma systemd_missing:
  assumes "tool_missing run systemd_cmds"
  shows "\<exists>ls. SystemdModule_check run rules = Inr \<lparr>status = WARN, tooltipLines = ls\<rparr>"
proof -
  from assms have m:
    "fst (run [''systemctl'', ''is-system-running'']) = 127"
    "fst (run [''systemctl'', ''--user'', ''is-system-running'']) = 127"
    "fst (run [''systemctl'', ''--failed'', ''--no-legend'', ''--plain'']) = 127"
    "fst (run [''systemctl'', ''--user'', ''--failed'', ''--no-legend'', ''--plain'']) = 127"
    by (simp_all add: tool_missing_def systemd_cmds_def)
  have s: "SystemdModule_state_result run user = Inr \<lparr>status = WARN, tooltipLines = [''systemctl missing'']\<rparr>" for user
    using missing_outcome [OF m(1)] missing_outcome [OF m(2)]
    unfolding SystemdModule_state_result_def Let_def by (cases user) auto
  have f: "SystemdModule_failed_units_result run rules user = Inr \<lparr>status = WARN, tooltipLines = [''systemctl missing'']\<rparr>" for user
    using missing_outcome [OF m(3)] missing_outcome [OF m(4)]
    unfolding SystemdModule_failed_units_result_def Let_def by (cases user) auto
  show ?thesis
    unfolding SystemdModule_check_def s f
    by (simp add: and_then_def merge_def worst_def py_max_def)
qed

lemma journal_missing:
  assumes "tool_missing run [journal_cmd]"
  shows "JournalModule_check run rules = Inr \<lparr>status = WARN, tooltipLines = [''journalctl missing'']\<rparr>"
proof -
  from assms have "fst (run [''journalctl'', ''-b'', ''-p'', ''err..emerg'', ''--no-pager'', ''-o'', ''short-iso'']) = 127"
    by (simp add: tool_missing_def journal_cmd_def)
  from missing_outcome [OF this] show ?thesis
    unfolding JournalModule_check_def Let_def by auto
qed

lemma journal_unreadable:
  assumes "run journal_cmd = (code, out, err)"
    and "code \<noteq> 0" and "strip out = []"
  shows "\<exists>ls. JournalModule_check run rules = Inr \<lparr>status = WARN, tooltipLines = ls\<rparr>"
proof -
  have "py_or (strip err) ''cannot read journal'' \<noteq> []"
    by (rule py_or_default) simp
  then have f: "first_item (splitlines (py_or (strip err) ''cannot read journal''))
      = Inr (hd (splitlines (py_or (strip err) ''cannot read journal'')))"
    by (rule first_line_exists)
  show ?thesis
    unfolding JournalModule_check_def Let_def assms(1) [unfolded journal_cmd_def]
    using assms(2,3) by (simp add: f and_then_def)
qed

lemma btrfs_missing:
  assumes "tool_missing run [device_stats_cmd, scrub_cmd]"
  shows "\<exists>ls. BtrfsModule_check run rules = Inr \<lparr>status = WARN, tooltipLines = ls\<rparr>"
proof (cases "BtrfsModule_detect_root_fstype run = ''btrfs''")
  case False
  then show ?thesis
    unfolding BtrfsModule_check_def Let_def by simp
next
  case True
  from assms have m: "fst (run [''btrfs'', ''device'', ''stats'', ''/'']) = 127"
      "fst (run [''btrfs'', ''scrub'', ''status'', ''-R'', ''/'']) = 127"
    by (simp_all add: tool_missing_def device_stats_cmd_def scrub_cmd_def)
  have d: "BtrfsModule_device_stats run rules = Inr \<lparr>status = WARN, tooltipLines = [''btrfs-progs missing'']\<rparr>"
    using missing_outcome [OF m(1)] unfolding BtrfsModule_device_stats_def Let_def by auto
  have s: "BtrfsModule_scrub_status run rules = Inr \<lparr>status = WARN, tooltipLines = [''btrfs-progs missing'']\<rparr>"
    using missing_outcome [OF m(2)] unfolding BtrfsModule_scrub_status_def Let_def by auto
  show ?thesis
    unfolding BtrfsModule_check_def Let_def d s using True
    by (simp add: and_then_def merge_def worst_def py_max_def)
qed

lemma smart_missing:
  assumes "tool_missing run [scan_cmd]"
  shows "\<exists>ls. SmartModule_check run rules = Inr \<lparr>status = WARN, tooltipLines = ls\<rparr>"
proof -
  from assms have "fst (run [''sudo'', ''smartctl'', ''--scan-open'']) = 127"
    by (simp add: tool_missing_def scan_cmd_def)
  from missing_outcome [OF this] show ?thesis
    unfolding SmartModule_check_def Let_def by auto
qed

section \<open>A counter too long for int and a path with a null byte\<close>

lemma strip_unblank_ends:
  assumes "s \<noteq> []" and "\<not> is_space (hd s)" and "\<not> is_space (last s)"
  shows "strip s = s"
proof -
  from assms(1,3) have "dropWhile is_space (rev s) = rev s"
    by (cases "rev s") (auto simp: hd_rev [symmetric] simp del: hd_rev)
  then have "rstrip s = s" by (simp add: rstrip_def)
  moreover from assms(1,2) have "dropWhile is_space s = s"
    by (cases s) auto
  ultimately show ?thesis by (simp add: strip_def lstrip_def)
qed

lemma splitlines_from_one_line:
  "\<forall>c \<in> set s. \<not> is_linebreak c \<Longrightarrow>
   splitlines_from cur s = (if cur @ s = [] then [] else [cur @ s])"
proof (induction s arbitrary: cur)
  case Nil
  show ?case by simp
next
  case (Cons c cs)
  from Cons.prems have c: "\<not> is_linebreak c" and cs: "\<forall>d \<in> set cs. \<not> is_linebreak d"
    by simp_all
  from c have "c \<noteq> CHR 0x0D" by (auto simp: is_linebreak_def)
  with c Cons.IH [OF cs, of "cur @ [c]"] show ?case by simp
qed

lemma match_counter_from_no_bracket:
  "CHR '']'' \<notin> set s \<Longrightarrow> match_counter_from seen s = None"
  by (induction s arbitrary: seen) auto

lemma py_int_too_long: "int_max_str_digits < length d \<Longrightarrow> py_int d = Inl ValueError"
  by (simp add: py_int_def)

lemma long_counter_facts:
  "long_counter \<noteq> []" "length long_counter = 4301" "set long_counter = {CHR ''0''}"
  "last long_counter = CHR ''0''"
  by (simp_all add: long_counter_def)

lemma long_counter_runs:
  "takeWhile is_digit long_counter = long_counter" "dropWhile is_digit long_counter = []"
  "takeWhile is_space long_counter = []" "dropWhile is_space long_counter = long_counter"
  by (simp_all add: long_counter_def is_digit_def is_space_def)

lemma long_counter_line_strip: "strip long_counter_line = long_counter_line"
  by (rule strip_unblank_ends)
    (simp_all add: long_counter_line_def long_counter_facts is_space_def)

lemma long_counter_line_splitlines: "splitlines long_counter_line = [long_counter_line]"
proof -
  have "\<forall>c \<in> set long_counter_line. \<not> is_linebreak c"
    by (simp add: long_counter_line_def long_counter_facts is_linebreak_def)
  then show ?thesis
    by (simp add: splitlines_def splitlines_from_one_line long_counter_line_def)
qed

lemma long_counter_line_match:
  "match_counter long_counter_line = Some (''write_io_errs'', long_counter)"
proof -
  have nb: "CHR '']'' \<notin> set (''.write_io_errs '' @ long_counter)"
    by (simp add: long_counter_facts)
  have t: "match_counter_tail (''write_io_errs '' @ long_counter) = Some (''write_io_errs'', long_counter)"
    by (simp add: match_counter_tail_def is_space_def is_digit_def long_counter_runs long_counter_facts)
  have "match_counter_from ''/dev/sda'' ('']'' @ ''.write_io_errs '' @ long_counter)
      = Some (''write_io_errs'', long_counter)"
    using match_counter_from_no_bracket [OF nb, of "''/dev/sda]''"] t
    by (simp add: startswith_def)
  then show ?thesis
    by (simp add: match_counter_def long_counter_line_def)
qed

lemma long_counter_raises: "py_int long_counter = Inl ValueError"
  by (rule py_int_too_long) (simp add: long_counter_facts int_max_str_digits_def)

lemma mount_null_path_constructed:
  "MountThreshold_init (''/mnt'' @ [CHR 0x00]) (Finite 80) (Finite 90) = Inr mount_null_path"
  by (simp add: MountThreshold_init_def mount_null_path_def float_gt_def)

text \<open>
  C3. Two inputs on which a check raises instead of returning a result. Device statistics
  with a counter of 4301 digits match the counter pattern, and \<open>int\<close> raises ValueError on
  the digits, out of \<open>device_stats\<close> and out of the filesystem check. A constructed mountpoint
  whose path holds a null byte makes \<open>disk_usage\<close> raise ValueError, which no \<open>except\<close> clause
  of the disk check catches.
\<close>

theorem checks_raise_value_error:
  "length long_counter = 4301
   \<and> match_counter (strip long_counter_line) = Some (''write_io_errs'', long_counter)
   \<and> py_int long_counter = Inl ValueError
   \<and> BtrfsModule_device_stats run_long_counter [] = Inl ValueError
   \<and> BtrfsModule_check run_long_counter [] = Inl ValueError
   \<and> MountThreshold_init (''/mnt'' @ [CHR 0x00]) (Finite 80) (Finite 90) = Inr mount_null_path
   \<and> DiskModule_check exact_ops du_null disk_null_path = Inl ValueError"
proof -
  have ne: "long_counter_line \<noteq> []"
    by (simp add: long_counter_line_def)
  have loop: "device_stats_loop [] (0, [], False) [long_counter_line] = Inl ValueError"
    by (simp add: long_counter_line_strip long_counter_line_match long_counter_raises ne
        is_ignored_def and_then_def Let_def)
  have lines: "device_stats_of_lines [] [long_counter_line] = Inl ValueError"
    unfolding device_stats_of_lines_def loop by (simp add: and_then_def)
  have stats: "BtrfsModule_device_stats run_long_counter [] = Inl ValueError"
    unfolding BtrfsModule_device_stats_def Let_def run_long_counter_def device_stats_cmd_def
    by (simp add: long_counter_line_splitlines lines)
  have fs: "BtrfsModule_detect_root_fstype run_long_counter = ''btrfs''"
    unfolding BtrfsModule_detect_root_fstype_def Let_def run_long_counter_def device_stats_cmd_def
    by (simp add: strip_def lstrip_def rstrip_def is_space_def)
  have check: "BtrfsModule_check run_long_counter [] = Inl ValueError"
    unfolding BtrfsModule_check_def Let_def fs stats by (simp add: and_then_def)
  have disk: "DiskModule_check exact_ops du_null disk_null_path = Inl ValueError"
    by (simp add: DiskModule_check_def disk_null_path_def DiskModule_init_def mount_null_path_def
        check_mount_def du_null_def and_then_def)
  from long_counter_facts(2) long_counter_line_match long_counter_raises stats check
    mount_null_path_constructed disk
  show ?thesis by (simp add: long_counter_line_strip)
qed

section \<open>SMART: what follows the bit lines\<close>







lemma strip_empty: "strip [] = []"
  by (simp add: strip_def lstrip_def rstrip_def)







section \<open>SMART exit bits: exit code 9\<close>

lemma worst_WARN_CRITICAL: "worst [WARN, CRITICAL] = Inr CRITICAL"
  by (simp add: worst_def py_max_def)

text \<open>
  C4. Each of the eight bits of the exit code contributes its own pair of severity and
  message exactly when it is set, whatever the other bits are: bits 1, 2, 4 and 128 a WARN,
  bits 8, 16, 32 and 64 a CRITICAL. Exit code 9 gives two messages, one WARN and one
  CRITICAL, and without a health line the verdict of the device is CRITICAL.
\<close>

theorem smart_exit_bits_independent:
  "decode_exit_bits code =
     (if bit code 0 then [(WARN, ''smartctl: command line did not parse'')] else [])
   @ (if bit code 1 then [(WARN, ''smartctl: failed to open device'')] else [])
   @ (if bit code 2 then [(WARN, ''smartctl: SMART command failed'')] else [])
   @ (if bit code 3 then [(CRITICAL, ''SMART overall-health self-assessment reported failure'')] else [])
   @ (if bit code 4 then [(CRITICAL, ''At least one prefailure attribute is below threshold'')] else [])
   @ (if bit code 5 then [(CRITICAL, ''At least one usage attribute is below threshold'')] else [])
   @ (if bit code 6 then [(CRITICAL, ''SMART self-test log contains errors'')] else [])
   @ (if bit code 7 then [(WARN, ''A previous selective self-test is pending completion'')] else [])
   \<and> decode_exit_bits 9 = [(WARN, ''smartctl: command line did not parse''),
        (CRITICAL, ''SMART overall-health self-assessment reported failure'')]
   \<and> (run (smartctl_a device) = (9, out, err)
        \<and> extract_health_line out = None \<and> extract_health_line err = None \<longrightarrow>
        SmartModule_check_device run device =
          Inr (CRITICAL,
               [''['' @ glyph_cross @ ''] '' @ SmartDevice.path device @ '': SMART reports failure'',
                ''  - (warn) smartctl: command line did not parse'',
                ''  - (crit) SMART overall-health self-assessment reported failure'']))"
proof -
  have dev: "SmartModule_check_device run device =
          Inr (CRITICAL,
               [''['' @ glyph_cross @ ''] '' @ SmartDevice.path device @ '': SMART reports failure'',
                ''  - (warn) smartctl: command line did not parse'',
                ''  - (crit) SMART overall-health self-assessment reported failure''])"
    if r: "run (smartctl_a device) = (9, out, err)"
      and h: "extract_health_line out = None" "extract_health_line err = None"
  proof -
    have s: "status_from_exit_and_health [(WARN, ''smartctl: command line did not parse''),
        (CRITICAL, ''SMART overall-health self-assessment reported failure'')] None = Inr CRITICAL"
      by (simp add: status_from_exit_and_health_def worst_WARN_CRITICAL)
    show ?thesis
      unfolding SmartModule_check_device_def Let_def r [unfolded smartctl_a_def] h
      by (simp add: h opt_or_def s and_then_def summarize_health_def decode_9)
  qed
  with decode_exit_bits_by_bit [of code] decode_9 show ?thesis by blast
qed

lemma extract_health_line_empty: "extract_health_line [] = None"
  by (simp add: extract_health_line_def splitlines_def)

theorem smart_exit_bits_independent_witness:
  "run_always (9, [], []) (smartctl_a dev_sda) = (9, [], [])
   \<and> extract_health_line [] = None
   \<and> SmartModule_check_device (run_always (9, [], [])) dev_sda =
          Inr (CRITICAL,
               [''['' @ glyph_cross @ ''] /dev/sda: SMART reports failure'',
                ''  - (warn) smartctl: command line did not parse'',
                ''  - (crit) SMART overall-health self-assessment reported failure''])"
proof -
  have a: "run_always (9, [], []) (smartctl_a dev_sda) = (9, [], [])"
    by (simp add: run_always_def)
  from smart_exit_bits_independent [of 9 "run_always (9, [], [])" dev_sda "[]" "[]"] a
    extract_health_line_empty
  have "SmartModule_check_device (run_always (9, [], [])) dev_sda =
          Inr (CRITICAL,
               [''['' @ glyph_cross @ ''] '' @ SmartDevice.path dev_sda @ '': SMART reports failure'',
                ''  - (warn) smartctl: command line did not parse'',
                ''  - (crit) SMART overall-health self-assessment reported failure''])"
    by blast
  with a extract_health_line_empty show ?thesis by (simp add: dev_sda_def)
qed

section \<open>Service-manager state\<close>

lemma state_result_classify:
  assumes "run ([''systemctl''] @ (if user then [''--user''] else []) @ [''is-system-running''])
             = (code, out, err)"
    and "code \<noteq> 127"
  shows "\<exists>state ls. SystemdModule_state_result run user =
      Inr \<lparr>status = (if state \<in> {''degraded'', ''maintenance'', ''failed''} then CRITICAL
                      else if state \<in> {''starting'', ''unknown''} \<or> code > 0 then WARN
                      else OK),
           tooltipLines = ls\<rparr>
      \<and> state = strip (hd (splitlines (py_or (py_or (strip out) (strip err)) ''unknown'')))"
proof -
  have "py_or (py_or (strip out) (strip err)) ''unknown'' \<noteq> []"
    by (rule py_or_default) simp
  then have f: "first_item (splitlines (py_or (py_or (strip out) (strip err)) ''unknown''))
      = Inr (hd (splitlines (py_or (py_or (strip out) (strip err)) ''unknown'')))"
    by (rule first_line_exists)
  show ?thesis
    unfolding SystemdModule_state_result_def Let_def assms(1)
    using assms(2) by (simp add: f and_then_def)
qed

lemma strip_running: "strip ''running'' = ''running''"
  by (simp add: strip_def lstrip_def rstrip_def is_space_def)

text \<open>
  C8. The state check tests \<open>code > 0\<close>, so an exit code below zero (the command was ended by
  a signal) with a state outside both lists is classified OK: here \<open>systemctl\<close> printed
  \<open>running\<close> and was ended by signal 15. The failed-units check of the same module treats
  every exit code other than 0 as a failure.
\<close>

theorem state_result_killed_by_signal:
  "SystemdModule_state_result (run_always (- 15, ''running'', [])) False
     = Inr \<lparr>status = OK, tooltipLines = [''systemd (): running'']\<rparr>"
  unfolding SystemdModule_state_result_def Let_def run_always_def
  by (simp add: strip_running strip_empty py_or_def splitlines_def is_linebreak_def
      first_item_def and_then_def)

section \<open>Mount thresholds\<close>

lemma in_percent_range_finite:
  "in_percent_range x = (\<exists>a. x = Finite a \<and> 0 \<le> a \<and> a \<le> 100)"
  by (cases x) (simp_all add: in_percent_range_def)

lemma MountThreshold_init_eq:
  "MountThreshold_init p w c =
     (if p \<noteq> [] \<and> in_percent_range w \<and> in_percent_range c \<and> \<not> float_gt w c
      then Inr \<lparr>MountThreshold.path = p, warn_percent = w, critical_percent = c\<rparr>
      else Inl ValueError)"
  by (simp add: MountThreshold_init_def in_percent_range_def)

lemma MountThreshold_invariant:
  assumes "MountThreshold_init p w c = Inr mt"
  shows "mt = \<lparr>MountThreshold.path = p, warn_percent = w, critical_percent = c\<rparr> \<and> p \<noteq> []
    \<and> (\<exists>a b. w = Finite a \<and> c = Finite b \<and> 0 \<le> a \<and> a \<le> b \<and> b \<le> 100)"
proof -
  from assms have ok: "p \<noteq> []" "in_percent_range w" "in_percent_range c" "\<not> float_gt w c"
    and mt: "mt = \<lparr>MountThreshold.path = p, warn_percent = w, critical_percent = c\<rparr>"
    by (auto simp: MountThreshold_init_eq split: if_splits)
  from ok(2) obtain a where a: "w = Finite a" "0 \<le> a" "a \<le> 100"
    by (auto simp: in_percent_range_finite)
  from ok(3) obtain b where b: "c = Finite b" "0 \<le> b" "b \<le> 100"
    by (auto simp: in_percent_range_finite)
  from ok(4) a b have "a \<le> b" by (simp add: float_gt_def)
  with ok(1) mt a b show ?thesis by simp
qed

text \<open>
  C9. Constructing a \<open>MountThreshold\<close> raises when the warn threshold exceeds the critical
  one, when either threshold lies outside [0, 100] (NaN and the infinities included) and
  when the path is empty; it succeeds on every other input, so a constructed value has a
  non-empty path and finite thresholds with 0 \<le> warn \<le> critical \<le> 100.
\<close>

theorem mount_threshold_construction:
  "(float_gt w c \<longrightarrow> MountThreshold_init p w c = Inl ValueError)
   \<and> (\<not> in_percent_range w \<or> \<not> in_percent_range c \<longrightarrow> MountThreshold_init p w c = Inl ValueError)
   \<and> (p = [] \<longrightarrow> MountThreshold_init p w c = Inl ValueError)
   \<and> (p \<noteq> [] \<and> in_percent_range w \<and> in_percent_range c \<and> \<not> float_gt w c \<longrightarrow>
        MountThreshold_init p w c = Inr \<lparr>MountThreshold.path = p, warn_percent = w, critical_percent = c\<rparr>)
   \<and> (\<forall>mt. MountThreshold_init p w c = Inr mt \<longrightarrow>
        MountThreshold.path mt \<noteq> []
        \<and> (\<exists>a b. warn_percent mt = Finite a \<and> critical_percent mt = Finite b
               \<and> 0 \<le> a \<and> a \<le> b \<and> b \<le> 100))"
proof -
  have inv: "MountThreshold.path mt \<noteq> []
        \<and> (\<exists>a b. warn_percent mt = Finite a \<and> critical_percent mt = Finite b
               \<and> 0 \<le> a \<and> a \<le> b \<and> b \<le> 100)"
    if "MountThreshold_init p w c = Inr mt" for mt
    using MountThreshold_invariant [OF that] by auto
  show ?thesis
    using inv by (auto simp: MountThreshold_init_eq)
qed

theorem mount_threshold_construction_witness:
  "float_gt (Finite 95) (Finite 90)
   \<and> MountThreshold_init ''/'' (Finite 95) (Finite 90) = Inl ValueError
   \<and> \<not> in_percent_range (Finite 101) \<and> \<not> in_percent_range NaN
   \<and> MountThreshold_init ''/'' (Finite 80) (Finite 101) = Inl ValueError
   \<and> MountThreshold_init ''/'' NaN (Finite 90) = Inl ValueError
   \<and> MountThreshold_init [] (Finite 80) (Finite 90) = Inl ValueError
   \<and> MountThreshold_init ''/'' (Finite 80) (Finite 90)
       = Inr \<lparr>MountThreshold.path = ''/'', warn_percent = Finite 80, critical_percent = Finite 90\<rparr>
   \<and> MountThreshold_init ''/'' (Finite 90) (Finite 90)
       = Inr \<lparr>MountThreshold.path = ''/'', warn_percent = Finite 90, critical_percent = Finite 90\<rparr>"
proof -
  have g: "float_gt (Finite 95) (Finite 90)" by (simp add: float_gt_def)
  have r1: "\<not> in_percent_range (Finite 101)" by (simp add: in_percent_range_def)
  have r2: "\<not> in_percent_range NaN" by (simp add: in_percent_range_def)
  have ok1: "''/'' \<noteq> [] \<and> in_percent_range (Finite 80) \<and> in_percent_range (Finite 90)
      \<and> \<not> float_gt (Finite 80) (Finite 90)"
    by (simp add: in_percent_range_def float_gt_def)
  have ok2: "''/'' \<noteq> [] \<and> in_percent_range (Finite 90) \<and> in_percent_range (Finite 90)
      \<and> \<not> float_gt (Finite 90) (Finite 90)"
    by (simp add: in_percent_range_def float_gt_def)
  from mount_threshold_construction [of "Finite 95" "Finite 90" "''/''"] g
  have a: "MountThreshold_init ''/'' (Finite 95) (Finite 90) = Inl ValueError" by blast
  from mount_threshold_construction [of "Finite 80" "Finite 101" "''/''"] r1
  have b: "MountThreshold_init ''/'' (Finite 80) (Finite 101) = Inl ValueError" by blast
  from mount_threshold_construction [of NaN "Finite 90" "''/''"] r2
  have c: "MountThreshold_init ''/'' NaN (Finite 90) = Inl ValueError" by blast
  from mount_threshold_construction [of "Finite 80" "Finite 90" "[]"]
  have d: "MountThreshold_init [] (Finite 80) (Finite 90) = Inl ValueError" by blast
  from mount_threshold_construction [of "Finite 80" "Finite 90" "''/''"] ok1
  have e: "MountThreshold_init ''/'' (Finite 80) (Finite 90)
       = Inr \<lparr>MountThreshold.path = ''/'', warn_percent = Finite 80, critical_percent = Finite 90\<rparr>"
    by blast
  from mount_threshold_construction [of "Finite 90" "Finite 90" "''/''"] ok2
  have f: "MountThreshold_init ''/'' (Finite 90) (Finite 90)
       = Inr \<lparr>MountThreshold.path = ''/'', warn_percent = Finite 90, critical_percent = Finite 90\<rparr>"
    by blast
  from g r1 r2 a b c d e f show ?thesis by blast
qed

section \<open>Disk verdict\<close>

lemma check_mount_status:
  assumes "du (MountThreshold.path cfg) = Usage t u f" and "0 < t"
  shows "mount_verdict ops du cfg = Inr (mount_status (used_percent_of ops t f) cfg)"
  using assms unfolding mount_verdict_def check_mount_def by (simp add: Let_def and_then_def)

text \<open>
  C5. For a constructed threshold and a mountpoint of positive total size, the used
  percentage is \<open>(total - free) / total * 100\<close> (in whatever floating-point arithmetic;
  without rounding it is that real number) and the verdict is CRITICAL from the critical
  threshold on, else WARN from the warn threshold on, else OK: a used percentage equal to
  the critical threshold is CRITICAL, one equal to the warn threshold and below the critical
  one is WARN, one below the warn threshold is OK.
\<close>

theorem disk_verdict_boundaries:
  assumes "MountThreshold_init p w c = Inr cfg" and "du p = Usage t u f" and "0 < t"
  shows "(\<exists>line. check_mount ops du cfg = Inr (mount_status (used_percent_of ops t f) cfg, line))
    \<and> mount_verdict ops du cfg = Inr (mount_status (used_percent_of ops t f) cfg)
    \<and> used_percent_of ops t f = mul ops (truediv ops (t - f) t) (Finite 100)
    \<and> used_percent_of exact_ops t f = Finite (real_of_int (t - f) / real_of_int t * 100)
    \<and> (float_ge (used_percent_of ops t f) c \<longrightarrow> mount_verdict ops du cfg = Inr CRITICAL)
    \<and> (\<not> float_ge (used_percent_of ops t f) c \<and> float_ge (used_percent_of ops t f) w \<longrightarrow>
          mount_verdict ops du cfg = Inr WARN)
    \<and> (\<not> float_ge (used_percent_of ops t f) c \<and> \<not> float_ge (used_percent_of ops t f) w \<longrightarrow>
          mount_verdict ops du cfg = Inr OK)
    \<and> (used_percent_of ops t f = c \<longrightarrow> mount_verdict ops du cfg = Inr CRITICAL)
    \<and> (used_percent_of ops t f = w \<and> float_lt (used_percent_of ops t f) c \<longrightarrow>
          mount_verdict ops du cfg = Inr WARN)
    \<and> (float_lt (used_percent_of ops t f) w \<longrightarrow> mount_verdict ops du cfg = Inr OK)"
proof -
  from MountThreshold_invariant [OF assms(1)] obtain a b where
    cfg: "cfg = \<lparr>MountThreshold.path = p, warn_percent = w, critical_percent = c\<rparr>"
    and ab: "w = Finite a" "c = Finite b" "0 \<le> a" "a \<le> b" "b \<le> 100"
    by blast
  let ?up = "used_percent_of ops t f"
  have cm: "\<exists>line. check_mount ops du cfg = Inr (mount_status ?up cfg, line)"
    using assms(2,3) unfolding check_mount_def by (simp add: Let_def cfg)
  have st: "mount_verdict ops du cfg = Inr (mount_status ?up cfg)"
    using assms(2,3) by (intro check_mount_status) (simp_all add: cfg)
  have ex: "used_percent_of exact_ops t f = Finite (real_of_int (t - f) / real_of_int t * 100)"
    by (simp add: used_percent_of_def exact_ops_def exact_mul_def)
  have ms: "mount_status ?up cfg =
      (if float_ge ?up c then CRITICAL else if float_ge ?up w then WARN else OK)"
    by (simp add: mount_status_def cfg)
  have eq_c: "?up = c \<Longrightarrow> float_ge ?up c"
    by (simp add: ab float_ge_def)
  have eq_w: "?up = w \<Longrightarrow> float_lt ?up c \<Longrightarrow> \<not> float_ge ?up c \<and> float_ge ?up w"
    by (simp add: ab float_ge_def) 
  have lt_w: "float_lt ?up w \<Longrightarrow> \<not> float_ge ?up c \<and> \<not> float_ge ?up w"
    by (cases ?up) (insert ab(4), simp_all add: ab(1,2) float_ge_def)
  show ?thesis
    unfolding st ms using cm [unfolded ms] ex eq_c eq_w lt_w by (auto simp: used_percent_of_def)
qed

lemma cfg_80_90_init: "MountThreshold_init ''/'' (Finite 80) (Finite 90) = Inr cfg_80_90"
  by (simp add: MountThreshold_init_def cfg_80_90_def float_gt_def)

lemma used_percent_samples:
  "used_percent_of exact_ops 1000 100 = Finite 90"
  "used_percent_of exact_ops 1000 200 = Finite 80"
  "used_percent_of exact_ops 1000 201 = Finite (799 / 10)"
  "used_percent_of exact_ops 1000 50 = Finite 95"
  by (simp_all add: used_percent_of_def exact_ops_def exact_mul_def)

theorem disk_verdict_boundaries_witness:
  "MountThreshold_init ''/'' (Finite 80) (Finite 90) = Inr cfg_80_90
   \<and> du_sample 1000 100 ''/'' = Usage 1000 900 100 \<and> (0::int) < 1000
   \<and> used_percent_of exact_ops 1000 100 = Finite 90
   \<and> mount_verdict exact_ops (du_sample 1000 100) cfg_80_90 = Inr CRITICAL
   \<and> used_percent_of exact_ops 1000 200 = Finite 80
   \<and> mount_verdict exact_ops (du_sample 1000 200) cfg_80_90 = Inr WARN
   \<and> used_percent_of exact_ops 1000 201 = Finite (799 / 10)
   \<and> mount_verdict exact_ops (du_sample 1000 201) cfg_80_90 = Inr OK"
proof -
  have u1: "du_sample 1000 100 ''/'' = Usage 1000 900 100" by (simp add: du_sample_def)
  have u2: "du_sample 1000 200 ''/'' = Usage 1000 800 200" by (simp add: du_sample_def)
  have u3: "du_sample 1000 201 ''/'' = Usage 1000 799 201" by (simp add: du_sample_def)
  have t: "(0::int) < 1000" by simp
  have l2: "float_lt (Finite 80) (Finite 90)" by simp
  have l3: "float_lt (Finite (799 / 10)) (Finite 80)" by simp
  from disk_verdict_boundaries [of "''/''" "Finite 80" "Finite 90" cfg_80_90 "du_sample 1000 100" 1000 900 100 exact_ops]
    cfg_80_90_init u1 t used_percent_samples(1)
  have a: "mount_verdict exact_ops (du_sample 1000 100) cfg_80_90 = Inr CRITICAL" by blast
  from disk_verdict_boundaries [of "''/''" "Finite 80" "Finite 90" cfg_80_90 "du_sample 1000 200" 1000 800 200 exact_ops]
    cfg_80_90_init u2 t used_percent_samples(2) l2
  have b: "mount_verdict exact_ops (du_sample 1000 200) cfg_80_90 = Inr WARN" by metis
  from disk_verdict_boundaries [of "''/''" "Finite 80" "Finite 90" cfg_80_90 "du_sample 1000 201" 1000 799 201 exact_ops]
    cfg_80_90_init u3 t used_percent_samples(3) l3
  have c: "mount_verdict exact_ops (du_sample 1000 201) cfg_80_90 = Inr OK" by metis
  from cfg_80_90_init u1 t a b c used_percent_samples show ?thesis by simp
qed

section \<open>Ignored lines of the device statistics\<close>

lemma device_stats_loop_append:
  "device_stats_loop rules s (xs @ ys) =
     and_then (device_stats_loop rules s xs) (\<lambda>s'. device_stats_loop rules s' ys)"
proof (induction xs arbitrary: s)
  case Nil
  show ?case by (simp add: and_then_def)
next
  case (Cons raw rest)
  obtain n i p where s: "s = (n, i, p)" by (cases s) auto
  show ?case
  proof (cases "match_counter (strip raw)")
    case None
    then show ?thesis
      using Cons.IH by (simp add: s Let_def)
  next
    case (Some g)
    obtain m d where g: "g = (m, d)" by (cases g)
    show ?thesis
    proof (cases "py_int d")
      case (Inl e)
      then show ?thesis
        using Cons.IH by (simp add: s Let_def Some g and_then_def)
    next
      case (Inr v)
      then show ?thesis
        using Cons.IH by (simp add: s Let_def Some g and_then_def)
    qed
  qed
qed

lemma device_stats_loop_ignored:
  "is_ignored rules (strip raw) \<Longrightarrow> device_stats_loop rules s (raw # post) = device_stats_loop rules s post"
  by (cases s) (simp add: Let_def)

lemma device_stats_loop_skip:
  assumes "is_ignored rules (strip raw)"
  shows "device_stats_loop rules s (pre @ raw # post) = device_stats_loop rules s (pre @ post)"
  unfolding device_stats_loop_append [of rules s pre]
  by (simp add: device_stats_loop_ignored [OF assms])

lemma device_stats_loop_quiet:
  "list_all (quiet_line rules) lines \<Longrightarrow> device_stats_loop rules s lines = Inr s"
proof (induction lines)
  case Nil
  show ?case by simp
next
  case (Cons raw rest)
  obtain n i p where s: "s = (n, i, p)" by (cases s) auto
  from Cons.prems have q: "quiet_line rules raw" and r: "list_all (quiet_line rules) rest"
    by simp_all
  from q have "device_stats_loop rules (n, i, p) (raw # rest) = device_stats_loop rules (n, i, p) rest"
    unfolding quiet_line_def
    by (auto simp: Let_def and_then_def split: option.splits)
  with Cons.IH [OF r] s show ?case by simp
qed

lemma show_nat_0: "show_nat 0 = ''0''"
  by code_simp

lemma show_nat_1: "show_nat 1 = ''1''"
  by code_simp

text \<open>
  C6. A line of the device statistics that an ignore pattern finds (searched anywhere in the
  stripped line) leaves no trace: the loop, and so the count of non-zero counters and the
  verdict, are those of the output without the line. When every other line is blank,
  ignored or a counter of value zero, the verdict is OK.
\<close>

theorem ignored_line_cannot_affect_severity:
  assumes "is_ignored rules (strip raw)"
  shows "device_stats_loop rules s (pre @ raw # post) = device_stats_loop rules s (pre @ post)
    \<and> device_stats_of_lines rules (pre @ raw # post) = device_stats_of_lines rules (pre @ post)
    \<and> (run device_stats_cmd = (0, out, err) \<and> splitlines out = pre @ raw # post \<longrightarrow>
         BtrfsModule_device_stats run rules = device_stats_of_lines rules (pre @ post))
    \<and> (list_all (quiet_line rules) (pre @ post) \<longrightarrow>
         device_stats_of_lines rules (pre @ raw # post)
           = Inr \<lparr>status = OK, tooltipLines = [''non-zero counters: 0'', ''  (none)'']\<rparr>)"
proof -
  note skip = device_stats_loop_skip [OF assms]
  have a: "device_stats_of_lines rules (pre @ raw # post) = device_stats_of_lines rules (pre @ post)"
    unfolding device_stats_of_lines_def skip ..
  have b: "BtrfsModule_device_stats run rules = device_stats_of_lines rules (pre @ post)"
    if "run device_stats_cmd = (0, out, err)" "splitlines out = pre @ raw # post"
    using that a unfolding BtrfsModule_device_stats_def device_stats_cmd_def by simp
  have c: "device_stats_of_lines rules (pre @ raw # post)
           = Inr \<lparr>status = OK, tooltipLines = [''non-zero counters: 0'', ''  (none)'']\<rparr>"
    if "list_all (quiet_line rules) (pre @ post)"
  proof -
    have "device_stats_of_lines rules (pre @ post)
           = Inr \<lparr>status = OK, tooltipLines = [''non-zero counters: 0'', ''  (none)'']\<rparr>"
      unfolding device_stats_of_lines_def device_stats_loop_quiet [OF that]
      by (simp add: and_then_def show_nat_0)
    with a show ?thesis by simp
  qed
  from skip a b c show ?thesis by blast
qed

lemma line_read_3_ignored: "is_ignored rules_read_io (strip line_read_3)"
  by code_simp

lemma line_read_3_counts: "match_counter (strip line_read_3) = Some (''read_io_errs'', ''3'')"
  by code_simp

lemma line_write_0_quiet: "list_all (quiet_line rules_read_io) ([] @ [line_write_0])"
  by code_simp

lemma unfiltered_is_critical:
  "device_stats_of_lines [] ([] @ line_read_3 # [line_write_0])
     = Inr \<lparr>status = CRITICAL, tooltipLines = [''non-zero counters: 1'', ''  [/dev/sda].read_io_errs 3'']\<rparr>"
  by code_simp

theorem ignored_line_cannot_affect_severity_witness:
  "is_ignored rules_read_io (strip line_read_3)
   \<and> match_counter (strip line_read_3) = Some (''read_io_errs'', ''3'')
   \<and> py_int ''3'' = Inr 3
   \<and> device_stats_of_lines [] ([] @ line_read_3 # [line_write_0])
        = Inr \<lparr>status = CRITICAL, tooltipLines = [''non-zero counters: 1'', ''  [/dev/sda].read_io_errs 3'']\<rparr>
   \<and> device_stats_of_lines rules_read_io ([] @ line_read_3 # [line_write_0])
        = Inr \<lparr>status = OK, tooltipLines = [''non-zero counters: 0'', ''  (none)'']\<rparr>"
proof -
  have p: "py_int ''3'' = Inr 3" by (simp add: py_int_def is_digit_def int_max_str_digits_def)
  from ignored_line_cannot_affect_severity [OF line_read_3_ignored, of "(0, [], False)" "[]" "[line_write_0]"]
    line_write_0_quiet
  have "device_stats_of_lines rules_read_io ([] @ line_read_3 # [line_write_0])
        = Inr \<lparr>status = OK, tooltipLines = [''non-zero counters: 0'', ''  (none)'']\<rparr>"
    by blast
  with line_read_3_ignored line_read_3_counts p unfiltered_is_critical show ?thesis by blast
qed

end
